theory Spec2Isabelle
  imports Main
begin

section \<open>Errors\<close>

text \<open>
  The Go code returns plain \<^verbatim>\<open>error\<close> values.  They come from the localisation service
  (\<^verbatim>\<open>L.Error(key)\<close>, \<^verbatim>\<open>L.Errorf(key, arg)\<close>), from \<^verbatim>\<open>fmt.Errorf\<close> and from a VM
  provider.  The localisation service is not part of the sources, so an error is kept as the
  key and the argument it was built from.
\<close>

datatype error =
    L_Error string
  | L_Errorf string string
  | Fmt_Errorf string
  | Provider_Error string

section \<open>Data model\<close>

subsection \<open>Go structs\<close>

text \<open>
  \<^verbatim>\<open>Plan\<close>, \<^verbatim>\<open>TicketMessage\<close> and \<^verbatim>\<open>Ticket\<close>.  A Go map that was never made is
  \<open>None\<close>.  A \<^verbatim>\<open>time.Time\<close> is an abstract timestamp.
\<close>

record Plan =
  Plan_Id :: int
  Plan_Name :: string
  Plan_Price :: int
  Plan_Ram :: int
  Plan_Cpu :: int
  Plan_Storage :: int
  Plan_Bandwidth :: int
  Plan_Global :: bool
  Plan_Enabled :: bool
  Plan_Identification :: string
  Plan_RegionPlans :: "(string \<rightharpoonup> string) option"
  Plan_Metadata :: "(string \<rightharpoonup> string) option"

record TicketMessage =
  TicketMessage_Id :: int
  TicketMessage_Staff :: bool
  TicketMessage_Message :: string
  TicketMessage_Time :: nat

record Ticket =
  Ticket_Id :: int
  Ticket_UserId :: int
  Ticket_Name :: string
  Ticket_Status :: string
  Ticket_Time :: nat
  Ticket_ModifyTime :: nat
  Ticket_Messages :: "TicketMessage list"

record TicketUpdateEmail =
  Email_Id :: int
  Email_Subject :: string
  Email_Message :: string

subsection \<open>Tables\<close>

text \<open>
  One record per table, one field per column that the statements of the sources name.
  The tables are lists of rows: the statements of \<^verbatim>\<open>planAssociateRegion\<close> and
  \<^verbatim>\<open>planSetMetadata\<close> count rows before writing, so several rows for one key are
  representable, and the row order is the insertion order.
\<close>

record plan_row =
  p_id :: int
  p_name :: string
  p_price :: int
  p_ram :: int
  p_cpu :: int
  p_storage :: int
  p_bandwidth :: int
  p_global :: bool
  p_enabled :: bool

record region_plan_row =
  rp_plan_id :: int
  rp_region :: string
  rp_identification :: string

record plan_metadata_row =
  pm_plan_id :: int
  pm_k :: string
  pm_v :: string

record ticket_row =
  t_id :: int
  t_user_id :: int
  t_name :: string
  t_status :: string
  t_time :: nat
  t_modify_time :: nat

record ticket_message_row =
  tm_id :: int
  tm_ticket_id :: int
  tm_staff :: bool
  tm_message :: string
  tm_time :: nat

text \<open>
  A unit of work started with \<^verbatim>\<open>go func() { time.Sleep(...); ticketReply(...) }()\<close>:
  the user id and the ticket id that the closure captured.
\<close>

datatype task = AutoReply int int

text \<open>A call of \<^verbatim>\<open>mailWrap\<close>: recipient, template, payload.\<close>

type_synonym mail = "int \<times> string \<times> TicketUpdateEmail"

text \<open>
  The state the functions work on: the tables behind \<^verbatim>\<open>db\<close>, the next value of each
  \<^verbatim>\<open>AUTO_INCREMENT\<close> column read back through \<^verbatim>\<open>LastInsertId\<close>, the account status
  that \<^verbatim>\<open>userDetails\<close> reads (no entry: \<^verbatim>\<open>nil\<close>), the mails handed to
  \<^verbatim>\<open>mailWrap\<close>, and the delayed replies that were started and have not run yet.
\<close>

record state =
  plans :: "plan_row list"
  plans_auto :: int
  region_plans :: "region_plan_row list"
  plan_metadata :: "plan_metadata_row list"
  tickets :: "ticket_row list"
  tickets_auto :: int
  ticket_messages :: "ticket_message_row list"
  ticket_messages_auto :: int
  user_status :: "int \<rightharpoonup> string"
  outbox :: "mail list"
  pending :: "task list"

subsection \<open>Collaborators taken as parameters\<close>

text \<open>
  A registered VM interface.  Only the optional capability \<^verbatim>\<open>VMIPlans\<close> is used here:
  \<open>None\<close> when the interface does not have it, otherwise what \<^verbatim>\<open>PlanList()\<close> returns.
\<close>

record VmInterface =
  PlanList :: "(error + Plan list) option"

text \<open>
  The globals \<^verbatim>\<open>regionInterfaces\<close> and \<^verbatim>\<open>cfg.Default.AdminEmail\<close>, and the column
  default of \<^verbatim>\<open>plans.enabled\<close>, which \<^verbatim>\<open>planCreate\<close> leaves to the schema.
\<close>

record env =
  regionInterfaces :: "string \<rightharpoonup> VmInterface"
  AdminEmail :: string
  plans_enabled_default :: bool

section \<open>Plan catalog\<close>

definition scan_plan :: "plan_row \<times> string \<Rightarrow> Plan" where
  "scan_plan r = (case r of (p, ident) \<Rightarrow>
     \<lparr> Plan_Id = p_id p, Plan_Name = p_name p, Plan_Price = p_price p, Plan_Ram = p_ram p,
       Plan_Cpu = p_cpu p, Plan_Storage = p_storage p, Plan_Bandwidth = p_bandwidth p,
       Plan_Global = p_global p, Plan_Enabled = p_enabled p, Plan_Identification = ident,
       Plan_RegionPlans = None, Plan_Metadata = None \<rparr>)"

definition planListHelper :: "(plan_row \<times> string) list \<Rightarrow> Plan list" where
  "planListHelper rows = map scan_plan rows"

definition planList :: "state \<Rightarrow> Plan list" where
  "planList s = planListHelper (map (\<lambda>p. (p, [])) (sort_key p_id (plans s)))"

text \<open>
  \<^verbatim>\<open>plans LEFT JOIN region_plans ON plans.id = region_plans.plan_id AND region_plans.region = ?\<close>:
  a plan row is paired with each binding row that matches, or once with no row.
\<close>

definition binding_for :: "int \<Rightarrow> string \<Rightarrow> region_plan_row \<Rightarrow> bool" where
  "binding_for planId region b = (rp_plan_id b = planId \<and> rp_region b = region)"

definition bindings_of :: "state \<Rightarrow> int \<Rightarrow> string \<Rightarrow> region_plan_row list" where
  "bindings_of s planId region = filter (binding_for planId region) (region_plans s)"

definition left_join_region :: "state \<Rightarrow> string \<Rightarrow> (plan_row \<times> region_plan_row option) list" where
  "left_join_region s region =
     concat (map (\<lambda>p. case bindings_of s (p_id p) region of
                         [] \<Rightarrow> [(p, None)]
                       | b # bs \<Rightarrow> map (\<lambda>b'. (p, Some b')) (b # bs)) (plans s))"

text \<open>
  \<^verbatim>\<open>WHERE plans.enabled = 1 AND (plans.global = 1 OR region_plans.identification IS NOT NULL)\<close>.
  Every write of \<^verbatim>\<open>identification\<close> in the sources stores a Go string, so the column is
  null in a joined row exactly when no binding row matched.
\<close>

definition region_where :: "plan_row \<times> region_plan_row option \<Rightarrow> bool" where
  "region_where r = (case r of (p, b) \<Rightarrow> p_enabled p \<and> (p_global p \<or> b \<noteq> None))"

text \<open>\<^verbatim>\<open>IFNULL(region_plans.identification, '')\<close>.\<close>

definition region_select :: "plan_row \<times> region_plan_row option \<Rightarrow> plan_row \<times> string" where
  "region_select r = (case r of (p, b) \<Rightarrow>
     (p, case b of None \<Rightarrow> [] | Some b' \<Rightarrow> rp_identification b'))"

definition planListRegion :: "state \<Rightarrow> string \<Rightarrow> Plan list" where
  "planListRegion s region =
     planListHelper (map region_select
       (sort_key (\<lambda>r. p_id (fst r)) (filter region_where (left_join_region s region))))"

definition planGet :: "state \<Rightarrow> int \<Rightarrow> Plan option" where
  "planGet s planId =
     (case planListHelper (map (\<lambda>p. (p, [])) (filter (\<lambda>p. p_id p = planId) (plans s))) of
        [plan] \<Rightarrow> Some plan
      | _ \<Rightarrow> None)"

definition planGetRegion :: "state \<Rightarrow> string \<Rightarrow> int \<Rightarrow> Plan option" where
  "planGetRegion s region planId =
     (case planListHelper (map region_select
             (filter (\<lambda>r. p_id (fst r) = planId \<and> region_where r) (left_join_region s region))) of
        [plan] \<Rightarrow> Some plan
      | _ \<Rightarrow> None)"

text \<open>
  \<^verbatim>\<open>planCreate\<close>: the new row takes the next value of the \<^verbatim>\<open>AUTO_INCREMENT\<close> column,
  which is what \<^verbatim>\<open>LastInsertId\<close> returns.
\<close>

definition planCreate ::
  "env \<Rightarrow> state \<Rightarrow> string \<Rightarrow> int \<Rightarrow> int \<Rightarrow> int \<Rightarrow> int \<Rightarrow> int \<Rightarrow> bool \<Rightarrow> state \<times> int" where
  "planCreate e s name price ram cpu storage bandwidth global =
     (s\<lparr> plans := plans s @
            [\<lparr> p_id = plans_auto s, p_name = name, p_price = price, p_ram = ram, p_cpu = cpu,
               p_storage = storage, p_bandwidth = bandwidth, p_global = global,
               p_enabled = plans_enabled_default e \<rparr>],
         plans_auto := plans_auto s + 1 \<rparr>,
      plans_auto s)"

definition planDelete :: "state \<Rightarrow> int \<Rightarrow> state" where
  "planDelete s planId = s\<lparr> plans := filter (\<lambda>p. p_id p \<noteq> planId) (plans s) \<rparr>"

definition planEnable :: "state \<Rightarrow> int \<Rightarrow> state" where
  "planEnable s planId =
     s\<lparr> plans := map (\<lambda>p. if p_id p = planId then p\<lparr> p_enabled := True \<rparr> else p) (plans s) \<rparr>"

definition planDisable :: "state \<Rightarrow> int \<Rightarrow> state" where
  "planDisable s planId =
     s\<lparr> plans := map (\<lambda>p. if p_id p = planId then p\<lparr> p_enabled := False \<rparr> else p) (plans s) \<rparr>"

definition region_not_exist :: "string \<Rightarrow> error" where
  "region_not_exist region = Fmt_Errorf (''specified region '' @ region @ '' does not exist'')"

definition planAssociateRegion ::
  "env \<Rightarrow> state \<Rightarrow> int \<Rightarrow> string \<Rightarrow> string \<Rightarrow> state \<times> error option" where
  "planAssociateRegion e s planId region identification =
     (if regionInterfaces e region = None then (s, Some (region_not_exist region))
      else if length (bindings_of s planId region) = 1
      then (s\<lparr> region_plans :=
                 map (\<lambda>b. if binding_for planId region b
                           then b\<lparr> rp_identification := identification \<rparr> else b)
                     (region_plans s) \<rparr>, None)
      else (s\<lparr> region_plans := region_plans s @
                 [\<lparr> rp_plan_id = planId, rp_region = region,
                    rp_identification = identification \<rparr>] \<rparr>, None))"

definition planDeassociateRegion :: "state \<Rightarrow> int \<Rightarrow> string \<Rightarrow> state" where
  "planDeassociateRegion s planId region =
     s\<lparr> region_plans :=
          filter (\<lambda>b. \<not> binding_for planId region b) (region_plans s) \<rparr>"

text \<open>
  The loop of \<^verbatim>\<open>planAutopopulate\<close> over the provider's plans.  The error that
  \<^verbatim>\<open>planAssociateRegion\<close> returns is dropped, as in the source.
\<close>

definition identification_count :: "state \<Rightarrow> string \<Rightarrow> string \<Rightarrow> nat" where
  "identification_count s region identification =
     length (filter (\<lambda>b. rp_region b = region \<and> rp_identification b = identification)
               (region_plans s))"

fun autopopulate_loop :: "env \<Rightarrow> state \<Rightarrow> string \<Rightarrow> Plan list \<Rightarrow> state" where
  "autopopulate_loop e s region [] = s"
| "autopopulate_loop e s region (plan # rest) =
     (if identification_count s region (Plan_Identification plan) = 0
      then (case planCreate e s (Plan_Name plan) (Plan_Price plan) (Plan_Ram plan) (Plan_Cpu plan)
                   (Plan_Storage plan) (Plan_Bandwidth plan) False of
              (s1, planId) \<Rightarrow>
                autopopulate_loop e
                  (fst (planAssociateRegion e s1 planId region (Plan_Identification plan)))
                  region rest)
      else autopopulate_loop e s region rest)"

definition planAutopopulate :: "env \<Rightarrow> state \<Rightarrow> string \<Rightarrow> state \<times> error option" where
  "planAutopopulate e s region =
     (case regionInterfaces e region of
        None \<Rightarrow> (s, Some (region_not_exist region))
      | Some vmi \<Rightarrow>
          (case PlanList vmi of
             None \<Rightarrow> (s, Some (L_Error ''region_plans_unsupported''))
           | Some (Inl err) \<Rightarrow> (s, Some err)
           | Some (Inr ps) \<Rightarrow> (autopopulate_loop e s region ps, None)))"

definition planSetMetadata :: "state \<Rightarrow> int \<Rightarrow> string \<Rightarrow> string \<Rightarrow> state" where
  "planSetMetadata s planId k v =
     (if length (filter (\<lambda>m. pm_plan_id m = planId \<and> pm_k m = k) (plan_metadata s)) = 1
      then s\<lparr> plan_metadata :=
                map (\<lambda>m. if pm_plan_id m = planId \<and> pm_k m = k then m\<lparr> pm_v := v \<rparr> else m)
                    (plan_metadata s) \<rparr>
      else s\<lparr> plan_metadata := plan_metadata s @
                [\<lparr> pm_plan_id = planId, pm_k = k, pm_v = v \<rparr>] \<rparr>)"

definition planUnsetMetadata :: "state \<Rightarrow> int \<Rightarrow> string \<Rightarrow> state" where
  "planUnsetMetadata s planId k =
     s\<lparr> plan_metadata :=
          filter (\<lambda>m. \<not> (pm_plan_id m = planId \<and> pm_k m = k)) (plan_metadata s) \<rparr>"

section \<open>Ticket system\<close>

definition scan_ticket :: "ticket_row \<Rightarrow> Ticket" where
  "scan_ticket t =
     \<lparr> Ticket_Id = t_id t, Ticket_UserId = t_user_id t, Ticket_Name = t_name t,
       Ticket_Status = t_status t, Ticket_Time = t_time t, Ticket_ModifyTime = t_modify_time t,
       Ticket_Messages = [] \<rparr>"

definition ticketListHelper :: "ticket_row list \<Rightarrow> Ticket list" where
  "ticketListHelper rows = map scan_ticket rows"

text \<open>
  \<^verbatim>\<open>ORDER BY modify_time DESC\<close> is the ascending stable sort, reversed;
  \<^verbatim>\<open>FIELD(status, 'open', 'answered', 'closed')\<close> is the position in the list, 0 when
  absent.
\<close>

definition status_field :: "string \<Rightarrow> nat" where
  "status_field st =
     (if st = ''open'' then 1 else if st = ''answered'' then 2
      else if st = ''closed'' then 3 else 0)"

definition ticketList :: "state \<Rightarrow> int \<Rightarrow> Ticket list" where
  "ticketList s userId =
     ticketListHelper (rev (sort_key t_modify_time
       (filter (\<lambda>t. t_user_id t = userId) (tickets s))))"

definition ticketListActive :: "state \<Rightarrow> int \<Rightarrow> Ticket list" where
  "ticketListActive s userId =
     ticketListHelper (rev (sort_key t_modify_time
       (filter (\<lambda>t. t_user_id t = userId \<and> (t_status t = ''open'' \<or> t_status t = ''answered''))
          (tickets s))))"

definition ticketListAll :: "state \<Rightarrow> Ticket list" where
  "ticketListAll s =
     ticketListHelper (sort_key (\<lambda>t. status_field (t_status t))
       (rev (sort_key t_modify_time (tickets s))))"

definition scan_message :: "ticket_message_row \<Rightarrow> TicketMessage" where
  "scan_message m =
     \<lparr> TicketMessage_Id = tm_id m, TicketMessage_Staff = tm_staff m,
       TicketMessage_Message = tm_message m, TicketMessage_Time = tm_time m \<rparr>"

definition ticket_query :: "state \<Rightarrow> int \<Rightarrow> int \<Rightarrow> bool \<Rightarrow> ticket_row list" where
  "ticket_query s userId ticketId staff =
     (if staff then filter (\<lambda>t. t_id t = ticketId) (tickets s)
      else filter (\<lambda>t. t_user_id t = userId \<and> t_id t = ticketId) (tickets s))"

definition message_query :: "state \<Rightarrow> int \<Rightarrow> ticket_message_row list" where
  "message_query s ticketId =
     sort_key tm_id (filter (\<lambda>m. tm_ticket_id m = ticketId) (ticket_messages s))"

definition ticketDetails :: "state \<Rightarrow> int \<Rightarrow> int \<Rightarrow> bool \<Rightarrow> Ticket option" where
  "ticketDetails s userId ticketId staff =
     (case ticketListHelper (ticket_query s userId ticketId staff) of
        [ticket] \<Rightarrow>
          Some (ticket\<lparr> Ticket_Messages :=
                  Ticket_Messages ticket @ map scan_message (message_query s ticketId) \<rparr>)
      | _ \<Rightarrow> None)"

text \<open>
  \<^verbatim>\<open>mailWrap\<close> is not part of the sources; a call is recorded with its arguments.
  \<^verbatim>\<open>log.Printf\<close> is left out.
\<close>

definition mailWrap :: "state \<Rightarrow> int \<Rightarrow> string \<Rightarrow> TicketUpdateEmail \<Rightarrow> state" where
  "mailWrap s userId tmpl email = s\<lparr> outbox := outbox s @ [(userId, tmpl, email)] \<rparr>"

definition spawn :: "state \<Rightarrow> task \<Rightarrow> state" where
  "spawn s t = s\<lparr> pending := pending s @ [t] \<rparr>"

text \<open>
  \<^verbatim>\<open>INSERT INTO ticket_messages (ticket_id, staff, message)\<close>; the \<^verbatim>\<open>time\<close> column
  takes its default, the time of the insert.
\<close>

definition insert_message :: "nat \<Rightarrow> state \<Rightarrow> int \<Rightarrow> bool \<Rightarrow> string \<Rightarrow> state" where
  "insert_message now s ticketId staff message =
     s\<lparr> ticket_messages := ticket_messages s @
          [\<lparr> tm_id = ticket_messages_auto s, tm_ticket_id = ticketId, tm_staff = staff,
             tm_message = message, tm_time = now \<rparr>],
        ticket_messages_auto := ticket_messages_auto s + 1 \<rparr>"

definition auto_reply_message :: string where
  "auto_reply_message =
     ''We have resolved this issue. Have a good day.\<newline>\<newline>Regards,\<newline>Lobster Staff''"

text \<open>
  \<^verbatim>\<open>ticketOpen\<close>.  \<^verbatim>\<open>len(message)\<close> is the number of bytes of the Go string, the
  length of the \<open>string\<close> here.  The insert into \<^verbatim>\<open>tickets\<close> succeeds and
  \<^verbatim>\<open>LastInsertId\<close> returns the new id, so the branch \<^verbatim>\<open>err != nil\<close> is not taken.
\<close>

definition ticketOpen ::
  "env \<Rightarrow> nat \<Rightarrow> state \<Rightarrow> int \<Rightarrow> string \<Rightarrow> string \<Rightarrow> bool \<Rightarrow> state \<times> (error + int)" where
  "ticketOpen e now s userId name message staff =
     (if name = [] \<or> message = [] then (s, Inl (L_Error ''subject_message_empty''))
      else if length message > 16384 then (s, Inl (L_Errorf ''message_too_long'' ''15,000''))
      else if \<not> staff \<and> (user_status s userId = None \<or> user_status s userId = Some ''new'')
      then (s, Inl (L_Errorf ''ticket_for_support'' (AdminEmail e)))
      else
        (let ticketId = tickets_auto s;
             s1 = s\<lparr> tickets := tickets s @
                       [\<lparr> t_id = ticketId, t_user_id = userId, t_name = name,
                          t_status = ''open'', t_time = now, t_modify_time = now \<rparr>],
                     tickets_auto := ticketId + 1 \<rparr>;
             s2 = insert_message now s1 ticketId staff message;
             email = \<lparr> Email_Id = ticketId, Email_Subject = name, Email_Message = message \<rparr>;
             s3 = (if staff then mailWrap s2 userId ''ticketOpen'' email
                   else spawn (mailWrap s2 (- 1) ''ticketOpen'' email) (AutoReply userId ticketId))
         in (s3, Inr ticketId)))"

definition update_ticket_status :: "nat \<Rightarrow> state \<Rightarrow> string \<Rightarrow> int \<Rightarrow> state" where
  "update_ticket_status now s newStatus ticketId =
     s\<lparr> tickets := map (\<lambda>t. if t_id t = ticketId
                             then t\<lparr> t_modify_time := now, t_status := newStatus \<rparr> else t)
                       (tickets s) \<rparr>"

definition ticketReply ::
  "nat \<Rightarrow> state \<Rightarrow> int \<Rightarrow> int \<Rightarrow> string \<Rightarrow> bool \<Rightarrow> state \<times> error option" where
  "ticketReply now s userId ticketId message staff =
     (if message = [] then (s, Some (L_Error ''message_empty''))
      else
        (case ticketDetails s userId ticketId staff of
           None \<Rightarrow> (s, Some (L_Error ''invalid_ticket''))
         | Some ticket \<Rightarrow>
             (let s1 = insert_message now s ticketId staff message;
                  newStatus = (if staff then ''answered'' else ''open'');
                  email = \<lparr> Email_Id = ticketId, Email_Subject = Ticket_Name ticket,
                            Email_Message = message \<rparr>;
                  s2 = (if staff then mailWrap s1 userId ''ticketReply'' email
                        else spawn (mailWrap s1 (- 1) ''ticketReply'' email)
                               (AutoReply userId ticketId))
              in (update_ticket_status now s2 newStatus ticketId, None))))"

definition ticketClose :: "nat \<Rightarrow> state \<Rightarrow> int \<Rightarrow> int \<Rightarrow> state" where
  "ticketClose now s userId ticketId =
     s\<lparr> tickets := map (\<lambda>t. if t_id t = ticketId \<and> t_user_id t = userId
                             then t\<lparr> t_modify_time := now, t_status := ''closed'' \<rparr> else t)
                       (tickets s) \<rparr>"

text \<open>
  The body of the delayed closure, run at some later moment on the state of that moment: a
  staff-authored \<^verbatim>\<open>ticketReply\<close> with the canned text, its result dropped.
  \<open>fire\<close> takes the \<open>i\<close>-th delayed reply that has not run yet and runs it.
\<close>

definition run_task :: "nat \<Rightarrow> state \<Rightarrow> task \<Rightarrow> state" where
  "run_task now s t = (case t of AutoReply userId ticketId \<Rightarrow>
     fst (ticketReply now s userId ticketId auto_reply_message True))"

definition fire :: "nat \<Rightarrow> state \<Rightarrow> nat \<Rightarrow> state" where
  "fire now s i =
     (if i < length (pending s)
      then run_task now (s\<lparr> pending := take i (pending s) @ drop (Suc i) (pending s) \<rparr>)
             (pending s ! i)
      else s)"

section \<open>Notions used in the properties\<close>

text \<open>A freshly created database: empty tables, counters at 1.\<close>

definition empty_db :: state where
  "empty_db =
     \<lparr> plans = [], plans_auto = 1, region_plans = [], plan_metadata = [], tickets = [],
       tickets_auto = 1, ticket_messages = [], ticket_messages_auto = 1,
       user_status = Map.empty, outbox = [], pending = [] \<rparr>"

text \<open>The table row that a returned \<^verbatim>\<open>Plan\<close> was scanned from.\<close>

definition plan_row_of :: "Plan \<Rightarrow> plan_row" where
  "plan_row_of P =
     \<lparr> p_id = Plan_Id P, p_name = Plan_Name P, p_price = Plan_Price P, p_ram = Plan_Ram P,
       p_cpu = Plan_Cpu P, p_storage = Plan_Storage P, p_bandwidth = Plan_Bandwidth P,
       p_global = Plan_Global P, p_enabled = Plan_Enabled P \<rparr>"

text \<open>A plan row is enabled and global, or enabled and bound in the region.\<close>

definition visible_in :: "state \<Rightarrow> string \<Rightarrow> plan_row \<Rightarrow> bool" where
  "visible_in s region p =
     (p_enabled p \<and> (p_global p \<or> bindings_of s (p_id p) region \<noteq> []))"

text \<open>
  No binding row of the region names a plan id that the \<^verbatim>\<open>plans\<close> table has yet to
  hand out.
\<close>

definition bindings_allocated :: "state \<Rightarrow> string \<Rightarrow> bool" where
  "bindings_allocated s region =
     list_all (\<lambda>b. rp_region b = region \<longrightarrow> rp_plan_id b < plans_auto s) (region_plans s)"

text \<open>At most one binding row for each pair of plan and region.\<close>

definition bindings_key :: "state \<Rightarrow> bool" where
  "bindings_key s = distinct (map (\<lambda>b. (rp_plan_id b, rp_region b)) (region_plans s))"

text \<open>The ticket id is a key of the \<^verbatim>\<open>tickets\<close> table.\<close>

definition tickets_key :: "state \<Rightarrow> bool" where
  "tickets_key s = distinct (map t_id (tickets s))"

text \<open>An identification is bound in a region.\<close>

definition bound_in :: "state \<Rightarrow> string \<Rightarrow> string \<Rightarrow> bool" where
  "bound_in s region identification = (identification_count s region identification \<noteq> 0)"

text \<open>
  The state after one round of the loop of \<open>planAutopopulate\<close> that creates a plan for a
  provider plan and inserts its binding row.
\<close>

definition create_bound :: "env \<Rightarrow> state \<Rightarrow> string \<Rightarrow> Plan \<Rightarrow> state" where
  "create_bound e s region plan =
     s\<lparr> plans := plans s @
            [\<lparr> p_id = plans_auto s, p_name = Plan_Name plan, p_price = Plan_Price plan,
               p_ram = Plan_Ram plan, p_cpu = Plan_Cpu plan, p_storage = Plan_Storage plan,
               p_bandwidth = Plan_Bandwidth plan, p_global = False,
               p_enabled = plans_enabled_default e \<rparr>],
         plans_auto := plans_auto s + 1,
         region_plans := region_plans s @
            [\<lparr> rp_plan_id = plans_auto s, rp_region = region,
               rp_identification = Plan_Identification plan \<rparr>] \<rparr>"

text \<open>
  The state after a successful \<open>ticketReply\<close> on a ticket with the given subject: one
  more message, one more mail, one more delayed reply when the author is not staff, and the
  new status on the rows with that ticket id.
\<close>

definition replied ::
  "nat \<Rightarrow> state \<Rightarrow> int \<Rightarrow> int \<Rightarrow> string \<Rightarrow> bool \<Rightarrow> string \<Rightarrow> state" where
  "replied now s userId ticketId message staff subject =
     s\<lparr> ticket_messages := ticket_messages s @
          [\<lparr> tm_id = ticket_messages_auto s, tm_ticket_id = ticketId, tm_staff = staff,
             tm_message = message, tm_time = now \<rparr>],
        ticket_messages_auto := ticket_messages_auto s + 1,
        outbox := outbox s @
          [(if staff then userId else - 1, ''ticketReply'',
            \<lparr> Email_Id = ticketId, Email_Subject = subject, Email_Message = message \<rparr>)],
        pending := (if staff then pending s else pending s @ [AutoReply userId ticketId]),
        tickets := map (\<lambda>t. if t_id t = ticketId
                              then t\<lparr> t_modify_time := now,
                                     t_status := (if staff then ''answered'' else ''open'') \<rparr>
                              else t) (tickets s) \<rparr>"

text \<open>The ticket that \<open>ticketDetails\<close> builds from a row of the \<open>tickets\<close> table.\<close>

definition ticket_of :: "state \<Rightarrow> ticket_row \<Rightarrow> Ticket" where
  "ticket_of s row =
     (scan_ticket row)\<lparr> Ticket_Messages := map scan_message (message_query s (t_id row)) \<rparr>"

text \<open>
  The number of characters of a UTF-8 encoded text: every byte that is not a continuation
  byte \<open>10xxxxxx\<close> starts a character.  The source never counts characters;
  \<^verbatim>\<open>len(message)\<close> is the number of bytes, \<open>length\<close> here.
\<close>

definition utf8_continuation :: "char \<Rightarrow> bool" where
  "utf8_continuation c = (128 \<le> (of_char c :: nat) \<and> (of_char c :: nat) < 192)"

definition utf8_characters :: "string \<Rightarrow> nat" where
  "utf8_characters m = length (filter (\<lambda>c. \<not> utf8_continuation c) m)"

section \<open>Example states\<close>

text \<open>
  A catalog of three plans, stored out of id order: plan 2 is global, plan 1 is bound in
  \<open>us-east\<close>, plan 3 is bound there too but disabled.
\<close>

definition example_catalog :: state where
  "example_catalog = empty_db
     \<lparr> plans :=
         [\<lparr> p_id = 2, p_name = ''Everywhere'', p_price = 900, p_ram = 1024, p_cpu = 2,
            p_storage = 20, p_bandwidth = 200, p_global = True, p_enabled = True \<rparr>,
          \<lparr> p_id = 1, p_name = ''Starter'', p_price = 500, p_ram = 512, p_cpu = 1,
            p_storage = 10, p_bandwidth = 100, p_global = False, p_enabled = True \<rparr>,
          \<lparr> p_id = 3, p_name = ''Retired'', p_price = 100, p_ram = 256, p_cpu = 1,
            p_storage = 5, p_bandwidth = 50, p_global = False, p_enabled = False \<rparr>],
       plans_auto := 4,
       region_plans :=
         [\<lparr> rp_plan_id = 1, rp_region = ''us-east'', rp_identification = ''ext-123'' \<rparr>,
          \<lparr> rp_plan_id = 3, rp_region = ''us-east'', rp_identification = ''ext-9'' \<rparr>],
       plan_metadata := [\<lparr> pm_plan_id = 1, pm_k = ''tier'', pm_v = ''basic'' \<rparr>] \<rparr>"

text \<open>
  Two regions: the provider of \<open>us-east\<close> lists two plans, the provider of \<open>eu-west\<close>
  cannot list plans.
\<close>

definition provider_plan :: "string \<Rightarrow> string \<Rightarrow> int \<Rightarrow> Plan" where
  "provider_plan name identification price =
     \<lparr> Plan_Id = 0, Plan_Name = name, Plan_Price = price, Plan_Ram = 512, Plan_Cpu = 1,
       Plan_Storage = 10, Plan_Bandwidth = 100, Plan_Global = False, Plan_Enabled = False,
       Plan_Identification = identification, Plan_RegionPlans = None, Plan_Metadata = None \<rparr>"

definition example_env :: env where
  "example_env =
     \<lparr> regionInterfaces =
         [''us-east'' \<mapsto> \<lparr> PlanList = Some (Inr [provider_plan ''Small'' ''small'' 500,
                                                  provider_plan ''Large'' ''large'' 900]) \<rparr>,
          ''eu-west'' \<mapsto> \<lparr> PlanList = None \<rparr>],
       AdminEmail = ''admin@example.com'',
       plans_enabled_default = True \<rparr>"

text \<open>Two binding rows for one pair of plan and region.\<close>

definition duplicate_bindings :: state where
  "duplicate_bindings = empty_db
     \<lparr> region_plans :=
         [\<lparr> rp_plan_id = 1, rp_region = ''us-east'', rp_identification = ''ext-123'' \<rparr>,
          \<lparr> rp_plan_id = 1, rp_region = ''us-east'', rp_identification = ''ext-123'' \<rparr>] \<rparr>"

text \<open>
  An empty catalog in which plan id 1, not created yet, was bound in \<open>us-east\<close> by a call
  of \<open>planAssociateRegion\<close>.
\<close>

definition early_binding :: state where
  "early_binding = fst (planAssociateRegion example_env empty_db 1 ''us-east'' ''small'')"

text \<open>
  A support desk with two tickets and three messages, stored out of id order: ticket 1 of
  user 7 is closed, ticket 2 of user 9 is open.  User 8 has a new account.
\<close>

definition example_desk :: state where
  "example_desk = empty_db
     \<lparr> tickets :=
         [\<lparr> t_id = 1, t_user_id = 7, t_name = ''Help'', t_status = ''closed'',
            t_time = 10, t_modify_time = 30 \<rparr>,
          \<lparr> t_id = 2, t_user_id = 9, t_name = ''Billing'', t_status = ''open'',
            t_time = 40, t_modify_time = 40 \<rparr>],
       tickets_auto := 3,
       ticket_messages :=
         [\<lparr> tm_id = 2, tm_ticket_id = 1, tm_staff = True, tm_message = ''we got it'',
            tm_time = 20 \<rparr>,
          \<lparr> tm_id = 1, tm_ticket_id = 1, tm_staff = False, tm_message = ''hi'',
            tm_time = 10 \<rparr>,
          \<lparr> tm_id = 3, tm_ticket_id = 2, tm_staff = False, tm_message = ''invoice?'',
            tm_time = 40 \<rparr>],
       ticket_messages_auto := 4,
       user_status := [7 \<mapsto> ''active'', 8 \<mapsto> ''new'', 9 \<mapsto> ''active''] \<rparr>"

text \<open>User 7 opens a third ticket on the example desk, at time 100.\<close>

definition example_opened :: state where
  "example_opened = fst (ticketOpen example_env 100 example_desk 7 ''Help'' ''hi'' False)"

text \<open>
  A body of 16384 characters in 16385 bytes: 16383 times the letter \<open>x\<close>, then the two
  bytes \<open>C3 A9\<close> of an accented letter.
\<close>

definition accented_body :: string where
  "accented_body = replicate 16383 CHR ''x'' @ [CHR 0xC3, CHR 0xA9]"

section \<open>Properties\<close>

subsection \<open>Listing the plans of a region\<close>

lemma plan_row_of_scan: "plan_row_of (scan_plan (p, i)) = p"
  by (simp add: plan_row_of_def scan_plan_def)

lemma in_left_join:
  "(p, b) \<in> set (left_join_region s r) \<longleftrightarrow>
     p \<in> set (plans s) \<and>
     (case b of None \<Rightarrow> bindings_of s (p_id p) r = []
              | Some b' \<Rightarrow> b' \<in> set (bindings_of s (p_id p) r))"
proof -
  have one: "set (case bs of [] \<Rightarrow> [(q, None)] | b # bs' \<Rightarrow> map (\<lambda>b'. (q, Some b')) (b # bs')) =
        (if bs = [] then {(q, None)} else (\<lambda>b'. (q, Some b')) ` set bs)"
    for bs :: "region_plan_row list" and q :: plan_row
    by (cases bs) auto
  show ?thesis
    by (cases b) (auto simp: left_join_region_def one)
qed

lemma set_planListRegion:
  "set (planListRegion s r) =
     (\<lambda>x. scan_plan (region_select x)) ` {x \<in> set (left_join_region s r). region_where x}"
  by (auto simp: planListRegion_def planListHelper_def)

lemma sorted_planListRegion: "sorted (map Plan_Id (planListRegion s r))"
proof -
  have "map Plan_Id (planListRegion s r) =
        map (\<lambda>x. p_id (fst x)) (sort_key (\<lambda>x. p_id (fst x)) (filter region_where (left_join_region s r)))"
    by (simp add: planListRegion_def planListHelper_def scan_plan_def region_select_def split_def)
  then show ?thesis by simp
qed

lemma rows_planListRegion:
  "plan_row_of ` set (planListRegion s r) = {p \<in> set (plans s). visible_in s r p}"
proof (rule set_eqI)
  fix p
  show "p \<in> plan_row_of ` set (planListRegion s r) \<longleftrightarrow> p \<in> {p \<in> set (plans s). visible_in s r p}"
  proof
    assume "p \<in> plan_row_of ` set (planListRegion s r)"
    then obtain q b where qb: "(q, b) \<in> set (left_join_region s r)" "region_where (q, b)"
      and p: "p = plan_row_of (scan_plan (region_select (q, b)))"
      by (auto simp: set_planListRegion)
    from p have "p = q" by (simp add: region_select_def plan_row_of_scan)
    with qb show "p \<in> {p \<in> set (plans s). visible_in s r p}"
      by (cases b) (auto simp: in_left_join region_where_def visible_in_def)
  next
    assume "p \<in> {p \<in> set (plans s). visible_in s r p}"
    then have p: "p \<in> set (plans s)" and v: "visible_in s r p" by auto
    define b where "b = (case bindings_of s (p_id p) r of [] \<Rightarrow> None | x # _ \<Rightarrow> Some x)"
    have "(p, b) \<in> set (left_join_region s r)"
      using p by (auto simp: in_left_join b_def split: list.splits)
    moreover have "region_where (p, b)"
      using v by (auto simp: region_where_def visible_in_def b_def split: list.splits)
    moreover have "plan_row_of (scan_plan (region_select (p, b))) = p"
      by (simp add: region_select_def plan_row_of_scan)
    ultimately show "p \<in> plan_row_of ` set (planListRegion s r)"
      unfolding set_planListRegion by force
  qed
qed

lemma ident_planListRegion:
  assumes "P \<in> set (planListRegion s r)"
  shows "if bindings_of s (Plan_Id P) r = [] then Plan_Identification P = []
         else Plan_Identification P \<in> rp_identification ` set (bindings_of s (Plan_Id P) r)"
proof -
  from assms obtain q b where qb: "(q, b) \<in> set (left_join_region s r)"
      and P: "P = scan_plan (region_select (q, b))"
    by (auto simp: set_planListRegion)
  show ?thesis
    using qb P by (cases b) (auto simp: in_left_join region_select_def scan_plan_def)
qed

lemma sort_key_map: "sort_key f (map g xs) = map g (sort_key (\<lambda>x. f (g x)) xs)"
proof (induction xs)
  case Nil show ?case by simp
next
  case (Cons x xs)
  have ins: "insort_key f (g x) (map g ys) = map g (insort_key (\<lambda>x. f (g x)) x ys)" for ys
    by (induction ys) auto
  show ?case by (simp add: Cons ins)
qed

lemma bindings_key_length: "bindings_key s \<Longrightarrow> length (bindings_of s planId r) \<le> 1"
proof -
  assume k: "bindings_key s"
  have "distinct (map (\<lambda>b. (rp_plan_id b, rp_region b)) xs) \<Longrightarrow>
        length (filter (binding_for planId r) xs) \<le> 1" for xs
  proof (induction xs)
    case Nil show ?case by simp
  next
    case (Cons x xs)
    show ?case
    proof (cases "binding_for planId r x")
      case True
      with Cons.prems have "filter (binding_for planId r) xs = []"
        by (auto simp: filter_empty_conv image_iff binding_for_def)
      with True show ?thesis by simp
    next
      case False with Cons show ?thesis by auto
    qed
  qed
  with k show ?thesis by (simp add: bindings_key_def bindings_of_def)
qed

lemma left_join_key:
  assumes "bindings_key s"
  shows "filter region_where (left_join_region s r) =
         map (\<lambda>p. (p, case bindings_of s (p_id p) r of [] \<Rightarrow> None | b # _ \<Rightarrow> Some b))
             (filter (visible_in s r) (plans s))"
proof -
  have one: "(case bindings_of s (p_id p) r of [] \<Rightarrow> [(p, None)]
                 | b # bs \<Rightarrow> map (\<lambda>b'. (p, Some b')) (b # bs)) =
             [(p, case bindings_of s (p_id p) r of [] \<Rightarrow> None | b # _ \<Rightarrow> Some b)]" for p
    using bindings_key_length [OF assms, of "p_id p" r]
    by (cases "bindings_of s (p_id p) r") auto
  have "left_join_region s r =
        map (\<lambda>p. (p, case bindings_of s (p_id p) r of [] \<Rightarrow> None | b # _ \<Rightarrow> Some b)) (plans s)"
    unfolding left_join_region_def one by (induction "plans s") auto
  moreover have "region_where (p, case bindings_of s (p_id p) r of [] \<Rightarrow> None | b # _ \<Rightarrow> Some b)
                 = visible_in s r p" for p
    by (cases "bindings_of s (p_id p) r") (simp_all add: region_where_def visible_in_def)
  ultimately show ?thesis
    by (simp add: filter_map o_def)
qed

lemma planListRegion_key:
  assumes "bindings_key s"
  shows "map plan_row_of (planListRegion s r) = sort_key p_id (filter (visible_in s r) (plans s))"
  by (simp add: planListRegion_def planListHelper_def left_join_key [OF assms] sort_key_map
        region_select_def plan_row_of_scan o_def)

subsection \<open>Claims about the plan catalog: listing and deletion\<close>

text \<open>
  C1.  For every region \<open>r\<close>, \<open>planListRegion\<close> returns exactly the plans that are enabled
  and global or bound in \<open>r\<close>, in ascending order of plan id: the rows the result was
  scanned from are the visible rows of the \<open>plans\<close> table, each returned plan carries the
  identification of one of its bindings in \<open>r\<close> (the empty string when it has none), and
  when every pair of plan and region has at most one binding row the result is the visible
  rows sorted by id, each once.  A disabled plan, and a plan that is neither global nor bound
  in \<open>r\<close>, is never returned.
\<close>

theorem planListRegion_exact:
  "sorted (map Plan_Id (planListRegion s r)) \<and>
   plan_row_of ` set (planListRegion s r) = {p \<in> set (plans s). visible_in s r p} \<and>
   (\<forall>P \<in> set (planListRegion s r).
      if bindings_of s (Plan_Id P) r = [] then Plan_Identification P = []
      else Plan_Identification P \<in> rp_identification ` set (bindings_of s (Plan_Id P) r)) \<and>
   (bindings_key s \<longrightarrow>
      map plan_row_of (planListRegion s r) = sort_key p_id (filter (visible_in s r) (plans s))) \<and>
   (\<forall>p. \<not> p_enabled p \<or> (\<not> p_global p \<and> bindings_of s (p_id p) r = []) \<longrightarrow>
      p \<notin> plan_row_of ` set (planListRegion s r))"
proof (intro conjI)
  show "sorted (map Plan_Id (planListRegion s r))"
    by (rule sorted_planListRegion)
  show "plan_row_of ` set (planListRegion s r) = {p \<in> set (plans s). visible_in s r p}"
    by (rule rows_planListRegion)
  show "\<forall>P \<in> set (planListRegion s r).
      if bindings_of s (Plan_Id P) r = [] then Plan_Identification P = []
      else Plan_Identification P \<in> rp_identification ` set (bindings_of s (Plan_Id P) r)"
    using ident_planListRegion by blast
  show "bindings_key s \<longrightarrow>
      map plan_row_of (planListRegion s r) = sort_key p_id (filter (visible_in s r) (plans s))"
    using planListRegion_key by blast
  show "\<forall>p. \<not> p_enabled p \<or> (\<not> p_global p \<and> bindings_of s (p_id p) r = []) \<longrightarrow>
      p \<notin> plan_row_of ` set (planListRegion s r)"
    unfolding rows_planListRegion by (auto simp: visible_in_def)
qed

theorem planListRegion_exact_witness:
  "bindings_key example_catalog \<and>
   map Plan_Id (planListRegion example_catalog ''us-east'') = [1, 2] \<and>
   map Plan_Identification (planListRegion example_catalog ''us-east'') = [''ext-123'', []] \<and>
   map Plan_Id (planListRegion example_catalog ''eu-west'') = [2] \<and>
   sorted (map Plan_Id (planListRegion example_catalog ''us-east'')) \<and>
   map plan_row_of (planListRegion example_catalog ''us-east'') =
     sort_key p_id (filter (visible_in example_catalog ''us-east'') (plans example_catalog))"
proof -
  have k: "bindings_key example_catalog"
    by (simp add: bindings_key_def example_catalog_def empty_db_def)
  have e: "map Plan_Id (planListRegion example_catalog ''us-east'') = [1, 2]"
    "map Plan_Identification (planListRegion example_catalog ''us-east'') = [''ext-123'', []]"
    "map Plan_Id (planListRegion example_catalog ''eu-west'') = [2]"
    by (simp_all add: planListRegion_def planListHelper_def left_join_region_def bindings_of_def
          binding_for_def region_where_def region_select_def scan_plan_def example_catalog_def empty_db_def)
  show ?thesis
    using planListRegion_exact [of example_catalog "''us-east''"] k e by simp
qed

text \<open>
  C8.  \<open>planDelete\<close> removes the rows of the \<open>plans\<close> table that carry the given id and
  nothing else: the rows of \<open>region_plans\<close> and of \<open>plan_metadata\<close>, also those that name
  the deleted plan, stay as they are, the other plans stay as they are and in their order,
  and no other part of the state changes.
\<close>

theorem planDelete_no_cascade:
  "region_plans (planDelete s planId) = region_plans s \<and>
   plan_metadata (planDelete s planId) = plan_metadata s \<and>
   filter (\<lambda>p. p_id p = planId) (plans (planDelete s planId)) = [] \<and>
   filter (\<lambda>p. p_id p \<noteq> planId) (plans (planDelete s planId)) =
     filter (\<lambda>p. p_id p \<noteq> planId) (plans s) \<and>
   plans (planDelete s planId) = filter (\<lambda>p. p_id p \<noteq> planId) (plans s) \<and>
   planDelete s planId = s\<lparr> plans := plans (planDelete s planId) \<rparr>"
  by (simp add: planDelete_def filter_empty_conv)

theorem planDelete_no_cascade_witness:
  "map p_id (plans (planDelete example_catalog 1)) = [2, 3] \<and>
   bindings_of (planDelete example_catalog 1) 1 ''us-east'' =
     [\<lparr> rp_plan_id = 1, rp_region = ''us-east'', rp_identification = ''ext-123'' \<rparr>] \<and>
   plan_metadata (planDelete example_catalog 1) =
     [\<lparr> pm_plan_id = 1, pm_k = ''tier'', pm_v = ''basic'' \<rparr>]"
proof -
  from planDelete_no_cascade [of example_catalog 1]
  have a: "region_plans (planDelete example_catalog 1) = region_plans example_catalog"
    and b: "plan_metadata (planDelete example_catalog 1) = plan_metadata example_catalog"
    and c: "plans (planDelete example_catalog 1) =
              filter (\<lambda>p. p_id p \<noteq> 1) (plans example_catalog)"
    by simp_all
  show ?thesis
    unfolding bindings_of_def a b c
    by (simp add: binding_for_def example_catalog_def empty_db_def)
qed

subsection \<open>Binding a plan to a region\<close>

lemma filter_map_update:
  assumes "\<And>b. P b \<Longrightarrow> P (f b)"
  shows "filter P (map (\<lambda>b. if P b then f b else b) xs) = map f (filter P xs)"
  using assms by (induction xs) auto

lemma filter_not_map_update:
  assumes "\<And>b. P b \<Longrightarrow> P (f b)"
  shows "filter (\<lambda>b. \<not> P b) (map (\<lambda>b. if P b then f b else b) xs) = filter (\<lambda>b. \<not> P b) xs"
  using assms by (induction xs) auto

lemma binding_for_update:
  "binding_for planId region b \<Longrightarrow> binding_for planId region (b\<lparr> rp_identification := i \<rparr>)"
  by (simp add: binding_for_def)

lemma binding_for_row:
  "binding_for planId region b \<Longrightarrow>
     b\<lparr> rp_identification := i \<rparr> =
       \<lparr> rp_plan_id = planId, rp_region = region, rp_identification = i \<rparr>"
  by (cases b) (simp add: binding_for_def)

lemma binding_for_new:
  "binding_for planId region \<lparr> rp_plan_id = planId, rp_region = region, rp_identification = i \<rparr>"
  by (simp add: binding_for_def)

lemma planAssociateRegion_error:
  "snd (planAssociateRegion e s planId region i) =
     (if regionInterfaces e region = None then Some (region_not_exist region) else None)"
  by (simp add: planAssociateRegion_def)

lemma planAssociateRegion_unknown:
  "regionInterfaces e region = None \<Longrightarrow> fst (planAssociateRegion e s planId region i) = s"
  by (simp add: planAssociateRegion_def)

lemma planAssociateRegion_first:
  assumes "regionInterfaces e region \<noteq> None" "length (bindings_of s planId region) \<le> 1"
  shows "bindings_of (fst (planAssociateRegion e s planId region i)) planId region =
           [\<lparr> rp_plan_id = planId, rp_region = region, rp_identification = i \<rparr>]"
proof (cases "bindings_of s planId region")
  case Nil
  then show ?thesis
    using assms by (simp add: planAssociateRegion_def bindings_of_def binding_for_def)
next
  case (Cons b bs)
  with assms have bs: "bs = []" by simp
  from Cons have "b \<in> set (bindings_of s planId region)" by simp
  then have b: "binding_for planId region b"
    by (simp add: bindings_of_def)
  have len: "length (bindings_of s planId region) = 1"
    using Cons bs by simp
  have "bindings_of (fst (planAssociateRegion e s planId region i)) planId region =
        map (\<lambda>b. b\<lparr> rp_identification := i \<rparr>) (bindings_of s planId region)"
  proof -
    from assms(1) obtain v where v: "regionInterfaces e region = Some v" by auto
    show ?thesis
      using len
      by (simp add: planAssociateRegion_def v bindings_of_def
            filter_map_update [where P = "binding_for planId region", OF binding_for_update])
  qed
  then show ?thesis
    using Cons bs binding_for_row [OF b] by simp
qed

lemma planAssociateRegion_again:
  assumes "regionInterfaces e region \<noteq> None"
    and "bindings_of s planId region =
           [\<lparr> rp_plan_id = planId, rp_region = region, rp_identification = i \<rparr>]"
  shows "fst (planAssociateRegion e s planId region i) = s"
proof -
  have "map (\<lambda>b. if binding_for planId region b
                  then b\<lparr> rp_identification := i \<rparr> else b) (region_plans s) = region_plans s"
  proof (rule map_idI)
    fix b assume m: "b \<in> set (region_plans s)"
    show "(if binding_for planId region b then b\<lparr> rp_identification := i \<rparr> else b) = b"
    proof (cases "binding_for planId region b")
      case True
      with m have "b \<in> set (bindings_of s planId region)"
        by (simp add: bindings_of_def)
      with assms(2) have "b = \<lparr> rp_plan_id = planId, rp_region = region, rp_identification = i \<rparr>"
        by simp
      then show ?thesis by simp
    next
      case False then show ?thesis by simp
    qed
  qed
  then show ?thesis
    using assms by (simp add: planAssociateRegion_def)
qed

lemma planAssociateRegion_others:
  "filter (\<lambda>b. \<not> binding_for planId region b)
     (region_plans (fst (planAssociateRegion e s planId region i))) =
   filter (\<lambda>b. \<not> binding_for planId region b) (region_plans s)"
  by (cases "regionInterfaces e region")
     (simp_all add: planAssociateRegion_def binding_for_new
        filter_not_map_update [where P = "binding_for planId region", OF binding_for_update])

lemma planAssociateRegion_frame:
  "fst (planAssociateRegion e s planId region i) =
     s\<lparr> region_plans := region_plans (fst (planAssociateRegion e s planId region i)) \<rparr>"
  by (simp add: planAssociateRegion_def)

text \<open>
  C4 as stated fails where the pair of plan and region already has two binding rows: the
  count is not 1, so each call inserts one more row.
\<close>

theorem planAssociateRegion_twice_counterexample:
  "regionInterfaces example_env ''us-east'' \<noteq> None \<and>
   length (bindings_of
     (fst (planAssociateRegion example_env
        (fst (planAssociateRegion example_env duplicate_bindings 1 ''us-east'' ''ext-123''))
        1 ''us-east'' ''ext-123'')) 1 ''us-east'') = 4"
  by (simp add: planAssociateRegion_def bindings_of_def binding_for_def duplicate_bindings_def
        empty_db_def example_env_def)

text \<open>
  C4, amended.  \<open>planAssociateRegion\<close> fails, with the error that the region does not
  exist and without changing the state, exactly when the region is not a key of
  \<open>regionInterfaces\<close>.  Otherwise, when the pair of plan and region has at most one binding
  row before the first call, two calls in succession with the same plan, region and
  identification leave exactly one binding row for the pair, with that identification; the
  second call changes nothing, and the binding rows of other pairs are untouched.
\<close>

theorem planAssociateRegion_idempotent:
  "snd (planAssociateRegion e s planId region i) =
     (if regionInterfaces e region = None then Some (region_not_exist region) else None) \<and>
   (regionInterfaces e region = None \<longrightarrow> fst (planAssociateRegion e s planId region i) = s) \<and>
   (regionInterfaces e region \<noteq> None \<and> length (bindings_of s planId region) \<le> 1 \<longrightarrow>
      bindings_of (fst (planAssociateRegion e (fst (planAssociateRegion e s planId region i))
                          planId region i)) planId region =
        [\<lparr> rp_plan_id = planId, rp_region = region, rp_identification = i \<rparr>] \<and>
      fst (planAssociateRegion e (fst (planAssociateRegion e s planId region i)) planId region i) =
        fst (planAssociateRegion e s planId region i) \<and>
      filter (\<lambda>b. \<not> binding_for planId region b)
        (region_plans (fst (planAssociateRegion e s planId region i))) =
      filter (\<lambda>b. \<not> binding_for planId region b) (region_plans s))"
proof (intro conjI impI)
  show "snd (planAssociateRegion e s planId region i) =
     (if regionInterfaces e region = None then Some (region_not_exist region) else None)"
    by (rule planAssociateRegion_error)
  show "regionInterfaces e region = None \<Longrightarrow> fst (planAssociateRegion e s planId region i) = s"
    by (rule planAssociateRegion_unknown)
next
  assume a: "regionInterfaces e region \<noteq> None \<and> length (bindings_of s planId region) \<le> 1"
  let ?s1 = "fst (planAssociateRegion e s planId region i)"
  have one: "bindings_of ?s1 planId region =
      [\<lparr> rp_plan_id = planId, rp_region = region, rp_identification = i \<rparr>]"
    using a by (simp add: planAssociateRegion_first)
  have same: "fst (planAssociateRegion e ?s1 planId region i) = ?s1"
    using a one by (simp add: planAssociateRegion_again)
  show "fst (planAssociateRegion e ?s1 planId region i) = ?s1" by (rule same)
  show "bindings_of (fst (planAssociateRegion e ?s1 planId region i)) planId region =
      [\<lparr> rp_plan_id = planId, rp_region = region, rp_identification = i \<rparr>]"
    by (simp only: same one)
  show "filter (\<lambda>b. \<not> binding_for planId region b) (region_plans ?s1) =
      filter (\<lambda>b. \<not> binding_for planId region b) (region_plans s)"
    by (rule planAssociateRegion_others)
qed

theorem planAssociateRegion_idempotent_witness:
  "regionInterfaces example_env ''us-east'' \<noteq> None \<and>
   length (bindings_of example_catalog 1 ''us-east'') \<le> 1 \<and>
   bindings_of (fst (planAssociateRegion example_env
       (fst (planAssociateRegion example_env example_catalog 1 ''us-east'' ''ext-7''))
       1 ''us-east'' ''ext-7'')) 1 ''us-east'' =
     [\<lparr> rp_plan_id = 1, rp_region = ''us-east'', rp_identification = ''ext-7'' \<rparr>] \<and>
   regionInterfaces example_env ''mars'' = None \<and>
   planAssociateRegion example_env example_catalog 1 ''mars'' ''ext-7'' =
     (example_catalog, Some (region_not_exist ''mars''))"
proof -
  have h: "regionInterfaces example_env ''us-east'' \<noteq> None"
    "length (bindings_of example_catalog 1 ''us-east'') \<le> 1"
    "regionInterfaces example_env ''mars'' = None"
    by (simp_all add: example_env_def example_catalog_def empty_db_def bindings_of_def
          binding_for_def)
  from planAssociateRegion_idempotent [of example_env example_catalog 1 "''us-east''" "''ext-7''"] h
  have A: "bindings_of (fst (planAssociateRegion example_env
       (fst (planAssociateRegion example_env example_catalog 1 ''us-east'' ''ext-7''))
       1 ''us-east'' ''ext-7'')) 1 ''us-east'' =
     [\<lparr> rp_plan_id = 1, rp_region = ''us-east'', rp_identification = ''ext-7'' \<rparr>]"
    by blast
  from planAssociateRegion_idempotent [of example_env example_catalog 1 "''mars''" "''ext-7''"] h
  have B: "planAssociateRegion example_env example_catalog 1 ''mars'' ''ext-7'' =
     (example_catalog, Some (region_not_exist ''mars''))"
    by (simp add: prod_eq_iff)
  show ?thesis
    using h A B by blast
qed

subsection \<open>Populating a region from its provider\<close>

lemma allocated_no_binding:
  assumes "bindings_allocated s region"
  shows "filter (binding_for (plans_auto s) region) (region_plans s) = []"
  using assms
  by (auto simp: bindings_allocated_def list_all_iff filter_empty_conv binding_for_def)

lemma create_and_bind:
  assumes r: "regionInterfaces e region = Some v" and al: "bindings_allocated s region"
  shows "fst (planAssociateRegion e
            (fst (planCreate e s (Plan_Name plan) (Plan_Price plan) (Plan_Ram plan) (Plan_Cpu plan)
                    (Plan_Storage plan) (Plan_Bandwidth plan) False))
            (snd (planCreate e s (Plan_Name plan) (Plan_Price plan) (Plan_Ram plan) (Plan_Cpu plan)
                    (Plan_Storage plan) (Plan_Bandwidth plan) False))
            region (Plan_Identification plan)) = create_bound e s region plan"
  by (simp add: planCreate_def planAssociateRegion_def r bindings_of_def
        allocated_no_binding [OF al] create_bound_def)

lemma loop_step:
  assumes r: "regionInterfaces e region = Some v" and al: "bindings_allocated s region"
  shows "autopopulate_loop e s region (plan # rest) =
     (if identification_count s region (Plan_Identification plan) = 0
      then autopopulate_loop e (create_bound e s region plan) region rest
      else autopopulate_loop e s region rest)"
  using create_and_bind [OF r al, of plan]
  by (simp add: split_beta)

lemma create_bound_allocated:
  "bindings_allocated s region \<Longrightarrow> bindings_allocated (create_bound e s region plan) region"
  by (auto simp: bindings_allocated_def create_bound_def list_all_iff)

lemma create_bound_count:
  "identification_count (create_bound e s region plan) region i =
     identification_count s region i + (if i = Plan_Identification plan then 1 else 0)"
  by (simp add: identification_count_def create_bound_def)

lemma create_bound_bound:
  "bound_in (create_bound e s region plan) region i \<longleftrightarrow>
     bound_in s region i \<or> i = Plan_Identification plan"
  by (simp add: bound_in_def create_bound_count)

lemma loop_invariant:
  assumes r: "regionInterfaces e region = Some v"
  shows "bindings_allocated s region \<Longrightarrow>
     bindings_allocated (autopopulate_loop e s region ps) region \<and>
     (\<forall>i. bound_in s region i \<longrightarrow> bound_in (autopopulate_loop e s region ps) region i) \<and>
     (\<forall>x \<in> set ps. bound_in (autopopulate_loop e s region ps) region (Plan_Identification x)) \<and>
     (\<exists>newp newb.
        plans (autopopulate_loop e s region ps) = plans s @ newp \<and>
        region_plans (autopopulate_loop e s region ps) = region_plans s @ newb \<and>
        length newb = length newp \<and>
        list_all (\<lambda>p. \<not> p_global p) newp \<and>
        list_all (\<lambda>b. rp_region b = region) newb)"
proof (induction ps arbitrary: s)
  case Nil
  then show ?case by simp
next
  case (Cons plan rest)
  show ?case
  proof (cases "identification_count s region (Plan_Identification plan) = 0")
    case False
    then have eq: "autopopulate_loop e s region (plan # rest) = autopopulate_loop e s region rest"
      by simp
    have here: "bound_in s region (Plan_Identification plan)"
      using False by (simp add: bound_in_def)
    from Cons.IH [OF Cons.prems] here show ?thesis
      unfolding eq by auto
  next
    case True
    let ?s1 = "create_bound e s region plan"
    have eq: "autopopulate_loop e s region (plan # rest) = autopopulate_loop e ?s1 region rest"
      using loop_step [OF r Cons.prems, of plan rest] True by simp
    have al1: "bindings_allocated ?s1 region"
      using Cons.prems by (rule create_bound_allocated)
    note ih = Cons.IH [OF al1]
    from ih obtain newp newb where new:
      "plans (autopopulate_loop e ?s1 region rest) = plans ?s1 @ newp"
      "region_plans (autopopulate_loop e ?s1 region rest) = region_plans ?s1 @ newb"
      "length newb = length newp"
      "list_all (\<lambda>p. \<not> p_global p) newp"
      "list_all (\<lambda>b. rp_region b = region) newb"
      by blast
    have ex: "\<exists>newp newb.
        plans (autopopulate_loop e ?s1 region rest) = plans s @ newp \<and>
        region_plans (autopopulate_loop e ?s1 region rest) = region_plans s @ newb \<and>
        length newb = length newp \<and>
        list_all (\<lambda>p. \<not> p_global p) newp \<and>
        list_all (\<lambda>b. rp_region b = region) newb"
      apply (rule exI [where x = "drop (length (plans s)) (plans ?s1) @ newp"])
      apply (rule exI [where x = "drop (length (region_plans s)) (region_plans ?s1) @ newb"])
      using new by (simp add: create_bound_def)
    have mono: "\<forall>i. bound_in s region i \<longrightarrow> bound_in (autopopulate_loop e ?s1 region rest) region i"
      using ih by (simp add: create_bound_bound)
    have all: "\<forall>x \<in> set (plan # rest).
        bound_in (autopopulate_loop e ?s1 region rest) region (Plan_Identification x)"
      using ih by (simp add: create_bound_bound)
    from ih have "bindings_allocated (autopopulate_loop e ?s1 region rest) region" by blast
    with ex mono all show ?thesis
      unfolding eq by blast
  qed
qed

lemma loop_nothing_to_do:
  "\<forall>x \<in> set ps. bound_in s region (Plan_Identification x) \<Longrightarrow>
     autopopulate_loop e s region ps = s"
  by (induction ps) (simp_all add: bound_in_def)

lemma planAutopopulate_loop:
  "regionInterfaces e region = Some vmi \<Longrightarrow> PlanList vmi = Some (Inr ps) \<Longrightarrow>
     planAutopopulate e s region = (autopopulate_loop e s region ps, None)"
  by (simp add: planAutopopulate_def)

text \<open>
  C5 as stated fails where a binding row of the region names a plan id that has not been
  created yet: the first run creates that plan and overwrites the row, the identification
  that the row carried is no longer bound, and the second run creates a plan for it.
\<close>

theorem planAutopopulate_twice_counterexample:
  "regionInterfaces example_env ''us-east'' =
     Some \<lparr> PlanList = Some (Inr [provider_plan ''Small'' ''small'' 500,
                                  provider_plan ''Large'' ''large'' 900]) \<rparr> \<and>
   length (plans (fst (planAutopopulate example_env early_binding ''us-east''))) = 1 \<and>
   length (region_plans (fst (planAutopopulate example_env early_binding ''us-east''))) = 1 \<and>
   length (plans (fst (planAutopopulate example_env
      (fst (planAutopopulate example_env early_binding ''us-east'')) ''us-east''))) = 2 \<and>
   length (region_plans (fst (planAutopopulate example_env
      (fst (planAutopopulate example_env early_binding ''us-east'')) ''us-east''))) = 2"
proof -
  have r: "regionInterfaces example_env ''us-east'' =
     Some \<lparr> PlanList = Some (Inr [provider_plan ''Small'' ''small'' 500,
                                  provider_plan ''Large'' ''large'' 900]) \<rparr>"
    by (simp add: example_env_def)
  have s0: "early_binding = empty_db
      \<lparr> region_plans := [\<lparr> rp_plan_id = 1, rp_region = ''us-east'',
                            rp_identification = ''small'' \<rparr>] \<rparr>"
    by (simp add: early_binding_def planAssociateRegion_def r bindings_of_def empty_db_def)
  have s1: "fst (planAutopopulate example_env early_binding ''us-east'') = empty_db
      \<lparr> plans := [\<lparr> p_id = 1, p_name = ''Large'', p_price = 900, p_ram = 512, p_cpu = 1,
                     p_storage = 10, p_bandwidth = 100, p_global = False, p_enabled = True \<rparr>],
        plans_auto := 2,
        region_plans := [\<lparr> rp_plan_id = 1, rp_region = ''us-east'',
                            rp_identification = ''large'' \<rparr>] \<rparr>"
    by (simp add: planAutopopulate_def r s0 identification_count_def provider_plan_def
          planCreate_def planAssociateRegion_def bindings_of_def binding_for_def empty_db_def
          example_env_def)
  have s2: "fst (planAutopopulate example_env
      (fst (planAutopopulate example_env early_binding ''us-east'')) ''us-east'') = empty_db
      \<lparr> plans := [\<lparr> p_id = 1, p_name = ''Large'', p_price = 900, p_ram = 512, p_cpu = 1,
                     p_storage = 10, p_bandwidth = 100, p_global = False, p_enabled = True \<rparr>,
                   \<lparr> p_id = 2, p_name = ''Small'', p_price = 500, p_ram = 512, p_cpu = 1,
                     p_storage = 10, p_bandwidth = 100, p_global = False, p_enabled = True \<rparr>],
        plans_auto := 3,
        region_plans := [\<lparr> rp_plan_id = 1, rp_region = ''us-east'',
                            rp_identification = ''large'' \<rparr>,
                         \<lparr> rp_plan_id = 2, rp_region = ''us-east'',
                            rp_identification = ''small'' \<rparr>] \<rparr>"
    unfolding s1
    by (simp add: planAutopopulate_def r identification_count_def provider_plan_def
          planCreate_def planAssociateRegion_def bindings_of_def binding_for_def empty_db_def
          example_env_def)
  show ?thesis
    unfolding s2 unfolding s1 using r by (simp add: empty_db_def)
qed

text \<open>
  C5, amended.  Let the region be recognised, let its provider list plans, and let it
  return the same list both times.  When no binding row of the region names a plan id that
  the \<open>plans\<close> table has yet to hand out, running \<open>planAutopopulate\<close> twice in succession
  creates no duplicates: both runs return no error, after the first run every identification
  of the provider's list is bound in the region, the second run leaves the state as the first
  run left it (no new plan row, no new binding row), and the first run only appends plan rows
  that are not global, together with as many binding rows of the region.
\<close>

theorem planAutopopulate_idempotent:
  "regionInterfaces e region = Some vmi \<and> PlanList vmi = Some (Inr ps) \<and>
   bindings_allocated s region \<longrightarrow>
     snd (planAutopopulate e s region) = None \<and>
     planAutopopulate e (fst (planAutopopulate e s region)) region =
       (fst (planAutopopulate e s region), None) \<and>
     (\<forall>x \<in> set ps. bound_in (fst (planAutopopulate e s region)) region (Plan_Identification x)) \<and>
     (\<exists>newp newb.
        plans (fst (planAutopopulate e s region)) = plans s @ newp \<and>
        region_plans (fst (planAutopopulate e s region)) = region_plans s @ newb \<and>
        length newb = length newp \<and>
        list_all (\<lambda>p. \<not> p_global p) newp \<and>
        list_all (\<lambda>b. rp_region b = region) newb)"
proof (intro impI)
  assume a: "regionInterfaces e region = Some vmi \<and> PlanList vmi = Some (Inr ps) \<and>
    bindings_allocated s region"
  let ?s1 = "autopopulate_loop e s region ps"
  have run: "planAutopopulate e t region = (autopopulate_loop e t region ps, None)" for t
    using a by (simp add: planAutopopulate_loop)
  have inv: "bindings_allocated ?s1 region \<and>
     (\<forall>i. bound_in s region i \<longrightarrow> bound_in ?s1 region i) \<and>
     (\<forall>x \<in> set ps. bound_in ?s1 region (Plan_Identification x)) \<and>
     (\<exists>newp newb.
        plans ?s1 = plans s @ newp \<and> region_plans ?s1 = region_plans s @ newb \<and>
        length newb = length newp \<and> list_all (\<lambda>p. \<not> p_global p) newp \<and>
        list_all (\<lambda>b. rp_region b = region) newb)"
    using a loop_invariant [of e region vmi s ps] by blast
  then have again: "autopopulate_loop e ?s1 region ps = ?s1"
    by (simp add: loop_nothing_to_do)
  show "snd (planAutopopulate e s region) = None \<and>
     planAutopopulate e (fst (planAutopopulate e s region)) region =
       (fst (planAutopopulate e s region), None) \<and>
     (\<forall>x \<in> set ps. bound_in (fst (planAutopopulate e s region)) region (Plan_Identification x)) \<and>
     (\<exists>newp newb.
        plans (fst (planAutopopulate e s region)) = plans s @ newp \<and>
        region_plans (fst (planAutopopulate e s region)) = region_plans s @ newb \<and>
        length newb = length newp \<and>
        list_all (\<lambda>p. \<not> p_global p) newp \<and>
        list_all (\<lambda>b. rp_region b = region) newb)"
    unfolding run fst_conv snd_conv again using inv by blast
qed

theorem planAutopopulate_idempotent_witness:
  "regionInterfaces example_env ''us-east'' =
     Some \<lparr> PlanList = Some (Inr [provider_plan ''Small'' ''small'' 500,
                                  provider_plan ''Large'' ''large'' 900]) \<rparr> \<and>
   PlanList \<lparr> PlanList = Some (Inr [provider_plan ''Small'' ''small'' 500,
                                     provider_plan ''Large'' ''large'' 900]) \<rparr> =
     Some (Inr [provider_plan ''Small'' ''small'' 500, provider_plan ''Large'' ''large'' 900]) \<and>
   bindings_allocated example_catalog ''us-east'' \<and>
   planAutopopulate example_env (fst (planAutopopulate example_env example_catalog ''us-east''))
       ''us-east'' =
     (fst (planAutopopulate example_env example_catalog ''us-east''), None) \<and>
   map p_id (plans (fst (planAutopopulate example_env example_catalog ''us-east''))) =
     [2, 1, 3, 4, 5]"
proof -
  let ?ps = "[provider_plan ''Small'' ''small'' 500, provider_plan ''Large'' ''large'' 900]"
  have r: "regionInterfaces example_env ''us-east'' = Some \<lparr> PlanList = Some (Inr ?ps) \<rparr>"
    by (simp add: example_env_def)
  have p: "PlanList \<lparr> PlanList = Some (Inr ?ps) \<rparr> = Some (Inr ?ps)"
    by simp
  have al: "bindings_allocated example_catalog ''us-east''"
    by (simp add: bindings_allocated_def example_catalog_def empty_db_def)
  from planAutopopulate_idempotent
         [of example_env "''us-east''" "\<lparr> PlanList = Some (Inr ?ps) \<rparr>" ?ps example_catalog] r p al
  have twice: "planAutopopulate example_env
      (fst (planAutopopulate example_env example_catalog ''us-east'')) ''us-east'' =
     (fst (planAutopopulate example_env example_catalog ''us-east''), None)"
    by blast
  have ids: "map p_id (plans (fst (planAutopopulate example_env example_catalog ''us-east''))) =
     [2, 1, 3, 4, 5]"
    by (simp add: planAutopopulate_def r identification_count_def provider_plan_def
          planCreate_def planAssociateRegion_def bindings_of_def binding_for_def
          example_catalog_def empty_db_def)
  show ?thesis
    using r p al twice ids by blast
qed

subsection \<open>The catalog operations keep one binding row per plan and region\<close>

lemma bindings_key_empty: "bindings_key empty_db"
  by (simp add: bindings_key_def empty_db_def)

lemma bindings_key_map:
  "map ((\<lambda>b. (rp_plan_id b, rp_region b)) \<circ>
        (\<lambda>b. if binding_for planId region b then b\<lparr> rp_identification := i \<rparr> else b)) xs =
   map (\<lambda>b. (rp_plan_id b, rp_region b)) xs"
  by (induction xs) auto

lemma bindings_key_fresh:
  "filter (binding_for planId region) xs = [] \<Longrightarrow>
     (planId, region) \<notin> (\<lambda>b. (rp_plan_id b, rp_region b)) ` set xs"
  by (auto simp: filter_empty_conv binding_for_def)

lemma bindings_key_planAssociateRegion:
  assumes "bindings_key s"
  shows "bindings_key (fst (planAssociateRegion e s planId region i))"
proof (cases "regionInterfaces e region")
  case None
  with assms show ?thesis by (simp add: planAssociateRegion_def)
next
  case (Some v)
  show ?thesis
  proof (cases "length (bindings_of s planId region) = 1")
    case True
    with assms Some show ?thesis
      by (simp add: planAssociateRegion_def bindings_key_def bindings_key_map)
  next
    case False
    with bindings_key_length [OF assms, of planId region]
    have "length (bindings_of s planId region) = 0"
      by arith
    then have "filter (binding_for planId region) (region_plans s) = []"
      by (simp add: bindings_of_def)
    then have "(planId, region) \<notin> (\<lambda>b. (rp_plan_id b, rp_region b)) ` set (region_plans s)"
      by (rule bindings_key_fresh)
    with assms Some False show ?thesis
      by (simp add: planAssociateRegion_def bindings_key_def)
  qed
qed

lemma bindings_key_planDeassociateRegion:
  "bindings_key s \<Longrightarrow> bindings_key (planDeassociateRegion s planId region)"
  by (simp add: bindings_key_def planDeassociateRegion_def distinct_map_filter)

lemma bindings_key_planCreate:
  "bindings_key s \<Longrightarrow> bindings_key (fst (planCreate e s n pr ra c st bw g))"
  by (simp add: bindings_key_def planCreate_def)

lemma bindings_key_planDelete:
  "bindings_key s \<Longrightarrow> bindings_key (planDelete s planId)"
  by (simp add: bindings_key_def planDelete_def)

lemma bindings_key_autopopulate_loop:
  "bindings_key s \<Longrightarrow> bindings_key (autopopulate_loop e s region ps)"
proof (induction ps arbitrary: s)
  case Nil
  then show ?case by simp
next
  case (Cons plan rest)
  show ?case
  proof (cases "identification_count s region (Plan_Identification plan) = 0")
    case True
    let ?c = "planCreate e s (Plan_Name plan) (Plan_Price plan) (Plan_Ram plan) (Plan_Cpu plan)
                (Plan_Storage plan) (Plan_Bandwidth plan) False"
    have "bindings_key (fst (planAssociateRegion e (fst ?c) (snd ?c) region
                               (Plan_Identification plan)))"
      using Cons.prems by (intro bindings_key_planAssociateRegion bindings_key_planCreate)
    then show ?thesis
      using True Cons.IH by (simp add: split_beta)
  next
    case False
    with Cons show ?thesis by simp
  qed
qed

lemma bindings_key_planAutopopulate:
  "bindings_key s \<Longrightarrow> bindings_key (fst (planAutopopulate e s region))"
  by (auto simp: planAutopopulate_def bindings_key_autopopulate_loop
        split: option.splits sum.splits)

subsection \<open>Reading a ticket\<close>

lemma key_filter:
  "distinct (map f xs) \<Longrightarrow> x \<in> set xs \<Longrightarrow> filter (\<lambda>y. f y = f x) xs = [x]"
proof (induction xs)
  case Nil
  then show ?case by simp
next
  case (Cons a xs)
  show ?case
  proof (cases "a = x")
    case True
    with Cons.prems have "filter (\<lambda>y. f y = f x) xs = []"
      by (auto simp: filter_empty_conv image_iff)
    with True show ?thesis by simp
  next
    case False
    with Cons.prems have "x \<in> set xs" "f a \<noteq> f x" by (auto simp: image_iff)
    with Cons show ?thesis by simp
  qed
qed

lemma ticketDetails_query:
  "ticketDetails s userId ticketId staff =
     (case ticket_query s userId ticketId staff of
        [row] \<Rightarrow> Some ((scan_ticket row)
                   \<lparr> Ticket_Messages := map scan_message (message_query s ticketId) \<rparr>)
      | _ \<Rightarrow> None)"
  by (simp add: ticketDetails_def ticketListHelper_def scan_ticket_def
        split: list.splits)

lemma ticketDetails_SomeD:
  assumes "ticketDetails s userId ticketId staff = Some T"
  shows "\<exists>row. ticket_query s userId ticketId staff = [row] \<and> row \<in> set (tickets s) \<and>
           t_id row = ticketId \<and> (\<not> staff \<longrightarrow> t_user_id row = userId) \<and> T = ticket_of s row"
proof -
  from assms obtain row where q: "ticket_query s userId ticketId staff = [row]"
    and T: "T = (scan_ticket row)
                  \<lparr> Ticket_Messages := map scan_message (message_query s ticketId) \<rparr>"
    by (auto simp: ticketDetails_query split: list.splits)
  from q have "row \<in> set (ticket_query s userId ticketId staff)" by simp
  then have m: "row \<in> set (tickets s)" "t_id row = ticketId" "\<not> staff \<longrightarrow> t_user_id row = userId"
    by (auto simp: ticket_query_def split: if_splits)
  with q T show ?thesis by (auto simp: ticket_of_def)
qed

lemma ticketDetails_staff:
  assumes "tickets_key s" "row \<in> set (tickets s)"
  shows "ticketDetails s userId (t_id row) True = Some (ticket_of s row)"
proof -
  have "ticket_query s userId (t_id row) True = [row]"
    using key_filter [of t_id "tickets s" row] assms
    by (simp add: ticket_query_def tickets_key_def)
  then show ?thesis by (simp add: ticketDetails_query ticket_of_def)
qed

lemma ticketDetails_owner:
  assumes "tickets_key s" "row \<in> set (tickets s)"
  shows "ticketDetails s (t_user_id row) (t_id row) False = Some (ticket_of s row)"
proof -
  have "filter (\<lambda>t. t_id t = t_id row) (tickets s) = [row]"
    using key_filter [of t_id "tickets s" row] assms by (simp add: tickets_key_def)
  moreover have "filter (\<lambda>t. t_user_id t = t_user_id row \<and> t_id t = t_id row) (tickets s) =
      filter (\<lambda>t. t_user_id t = t_user_id row) (filter (\<lambda>t. t_id t = t_id row) (tickets s))"
    by (simp add: conj_commute)
  ultimately have "ticket_query s (t_user_id row) (t_id row) False = [row]"
    by (simp add: ticket_query_def)
  then show ?thesis by (simp add: ticketDetails_query ticket_of_def)
qed

lemma ticketDetails_not_owner:
  assumes "\<forall>row \<in> set (tickets s). t_id row = ticketId \<longrightarrow> t_user_id row \<noteq> userId"
  shows "ticketDetails s userId ticketId False = None"
proof -
  have "ticket_query s userId ticketId False = []"
    using assms by (auto simp: ticket_query_def filter_empty_conv)
  then show ?thesis by (simp add: ticketDetails_query)
qed

lemma ticketDetails_missing:
  assumes "\<forall>row \<in> set (tickets s). t_id row \<noteq> ticketId"
  shows "ticketDetails s userId ticketId staff = None"
proof -
  have "ticket_query s userId ticketId staff = []"
    using assms by (auto simp: ticket_query_def filter_empty_conv)
  then show ?thesis by (simp add: ticketDetails_query)
qed

lemma ticket_of_fields:
  "Ticket_Id (ticket_of s row) = t_id row"
  "Ticket_UserId (ticket_of s row) = t_user_id row"
  "Ticket_Name (ticket_of s row) = t_name row"
  "Ticket_Status (ticket_of s row) = t_status row"
  "Ticket_Time (ticket_of s row) = t_time row"
  "Ticket_ModifyTime (ticket_of s row) = t_modify_time row"
  "Ticket_Messages (ticket_of s row) = map scan_message (message_query s (t_id row))"
  by (simp_all add: ticket_of_def scan_ticket_def)

lemma thread_sorted:
  "sorted (map TicketMessage_Id (map scan_message (message_query s ticketId)))"
proof -
  have "map TicketMessage_Id (map scan_message (message_query s ticketId)) =
        map tm_id (sort_key tm_id (filter (\<lambda>m. tm_ticket_id m = ticketId) (ticket_messages s)))"
    by (simp add: message_query_def scan_message_def)
  then show ?thesis by simp
qed

lemma thread_full:
  "set (map scan_message (message_query s ticketId)) =
     scan_message ` {m \<in> set (ticket_messages s). tm_ticket_id m = ticketId}"
  "length (map scan_message (message_query s ticketId)) =
     length (filter (\<lambda>m. tm_ticket_id m = ticketId) (ticket_messages s))"
  by (auto simp: message_query_def)

text \<open>
  C7.  When \<open>ticketDetails\<close> returns a ticket, it is the ticket of a row of the table with
  the requested id, its messages are all messages of that ticket and no others, in ascending
  order of message id, and for a caller who is not staff the owner is the caller.  A caller
  who is not staff and owns no ticket with the id gets nothing.  The ticket id being a key
  of the table, a staff caller gets every existing ticket, whoever owns it, and the owner
  gets the own ticket.
\<close>

theorem ticketDetails_scoped:
  "(ticketDetails s userId ticketId staff = Some T \<longrightarrow>
      Ticket_Id T = ticketId \<and>
      (\<not> staff \<longrightarrow> Ticket_UserId T = userId) \<and>
      (\<exists>row \<in> set (tickets s). T = ticket_of s row) \<and>
      sorted (map TicketMessage_Id (Ticket_Messages T)) \<and>
      set (Ticket_Messages T) =
        scan_message ` {m \<in> set (ticket_messages s). tm_ticket_id m = ticketId} \<and>
      length (Ticket_Messages T) =
        length (filter (\<lambda>m. tm_ticket_id m = ticketId) (ticket_messages s))) \<and>
   ((\<forall>row \<in> set (tickets s). t_id row = ticketId \<longrightarrow> t_user_id row \<noteq> userId) \<longrightarrow>
      ticketDetails s userId ticketId False = None) \<and>
   (tickets_key s \<and> row \<in> set (tickets s) \<longrightarrow>
      ticketDetails s userId (t_id row) True = Some (ticket_of s row) \<and>
      ticketDetails s (t_user_id row) (t_id row) False = Some (ticket_of s row))"
proof (intro conjI impI)
  assume a: "ticketDetails s userId ticketId staff = Some T"
  from ticketDetails_SomeD [OF a] obtain row where row:
    "row \<in> set (tickets s)" "t_id row = ticketId" "\<not> staff \<longrightarrow> t_user_id row = userId"
    "T = ticket_of s row"
    by blast
  show "Ticket_Id T = ticketId" using row by (simp add: ticket_of_fields)
  show "\<exists>row \<in> set (tickets s). T = ticket_of s row" using row by blast
  show "sorted (map TicketMessage_Id (Ticket_Messages T))"
    using row thread_sorted [of s ticketId] by (simp add: ticket_of_fields)
  show "set (Ticket_Messages T) =
        scan_message ` {m \<in> set (ticket_messages s). tm_ticket_id m = ticketId}"
    using row thread_full(1) [of s ticketId] by (simp add: ticket_of_fields)
  show "length (Ticket_Messages T) =
        length (filter (\<lambda>m. tm_ticket_id m = ticketId) (ticket_messages s))"
    using row thread_full(2) [of s ticketId] by (simp add: ticket_of_fields)
  show "Ticket_UserId T = userId" if "\<not> staff"
    using that row by (simp add: ticket_of_fields)
next
  assume "\<forall>row \<in> set (tickets s). t_id row = ticketId \<longrightarrow> t_user_id row \<noteq> userId"
  then show "ticketDetails s userId ticketId False = None"
    by (rule ticketDetails_not_owner)
next
  assume a: "tickets_key s \<and> row \<in> set (tickets s)"
  then show "ticketDetails s userId (t_id row) True = Some (ticket_of s row)"
    by (simp add: ticketDetails_staff)
  from a show "ticketDetails s (t_user_id row) (t_id row) False = Some (ticket_of s row)"
    by (simp add: ticketDetails_owner)
qed

theorem ticketDetails_scoped_witness:
  "tickets_key example_desk \<and>
   \<lparr> t_id = 1, t_user_id = 7, t_name = ''Help'', t_status = ''closed'',
     t_time = 10, t_modify_time = 30 \<rparr> \<in> set (tickets example_desk) \<and>
   list_all (\<lambda>row. t_id row = 1 \<longrightarrow> t_user_id row \<noteq> 9) (tickets example_desk) \<and>
   ticketDetails example_desk 9 1 False = None \<and>
   ticketDetails example_desk 9 1 True =
     Some (ticket_of example_desk \<lparr> t_id = 1, t_user_id = 7, t_name = ''Help'',
       t_status = ''closed'', t_time = 10, t_modify_time = 30 \<rparr>) \<and>
   ticketDetails example_desk 7 1 False =
     Some (ticket_of example_desk \<lparr> t_id = 1, t_user_id = 7, t_name = ''Help'',
       t_status = ''closed'', t_time = 10, t_modify_time = 30 \<rparr>) \<and>
   sorted (map TicketMessage_Id (Ticket_Messages (ticket_of example_desk
     \<lparr> t_id = 1, t_user_id = 7, t_name = ''Help'', t_status = ''closed'',
       t_time = 10, t_modify_time = 30 \<rparr>))) \<and>
   map TicketMessage_Id (Ticket_Messages (ticket_of example_desk
     \<lparr> t_id = 1, t_user_id = 7, t_name = ''Help'', t_status = ''closed'',
       t_time = 10, t_modify_time = 30 \<rparr>)) = [1, 2]"
proof -
  let ?row = "\<lparr> t_id = 1, t_user_id = 7, t_name = ''Help'', t_status = ''closed'',
     t_time = 10, t_modify_time = 30 \<rparr>"
  have k: "tickets_key example_desk"
    by (simp add: tickets_key_def example_desk_def empty_db_def)
  have m: "?row \<in> set (tickets example_desk)"
    by (simp add: example_desk_def empty_db_def)
  have n: "list_all (\<lambda>row. t_id row = 1 \<longrightarrow> t_user_id row \<noteq> 9) (tickets example_desk)"
    by (simp add: example_desk_def empty_db_def)
  from ticketDetails_scoped [of example_desk 9 1 False "ticket_of example_desk ?row" ?row] k m
    n [unfolded list_all_iff]
  have a: "ticketDetails example_desk 9 1 False = None"
    and b: "ticketDetails example_desk 9 1 True = Some (ticket_of example_desk ?row)"
    and c: "ticketDetails example_desk 7 1 False = Some (ticket_of example_desk ?row)"
    by simp_all
  from ticketDetails_scoped [of example_desk 7 1 False "ticket_of example_desk ?row" ?row] c
  have d: "sorted (map TicketMessage_Id (Ticket_Messages (ticket_of example_desk ?row)))"
    by blast
  have e: "map TicketMessage_Id (Ticket_Messages (ticket_of example_desk ?row)) = [1, 2]"
    by (simp add: ticket_of_fields message_query_def scan_message_def example_desk_def
          empty_db_def)
  show ?thesis
    using k m n a b c d e by blast
qed

subsection \<open>Opening, answering and closing a ticket\<close>

lemma ticketOpen_empty:
  "name = [] \<or> message = [] \<Longrightarrow>
     ticketOpen e now s userId name message staff = (s, Inl (L_Error ''subject_message_empty''))"
  by (simp add: ticketOpen_def)

lemma ticketOpen_too_long:
  "name \<noteq> [] \<Longrightarrow> 16384 < length message \<Longrightarrow>
     ticketOpen e now s userId name message staff =
       (s, Inl (L_Errorf ''message_too_long'' ''15,000''))"
  by (auto simp: ticketOpen_def)

lemma ticketOpen_not_provisioned:
  "name \<noteq> [] \<Longrightarrow> message \<noteq> [] \<Longrightarrow> length message \<le> 16384 \<Longrightarrow> \<not> staff \<Longrightarrow>
   user_status s userId = None \<or> user_status s userId = Some ''new'' \<Longrightarrow>
     ticketOpen e now s userId name message staff =
       (s, Inl (L_Errorf ''ticket_for_support'' (AdminEmail e)))"
  by (auto simp: ticketOpen_def)

lemma ticketOpen_success:
  assumes "name \<noteq> []" "message \<noteq> []" "length message \<le> 16384"
    and "staff \<or> (\<exists>st. user_status s userId = Some st \<and> st \<noteq> ''new'')"
  shows "snd (ticketOpen e now s userId name message staff) = Inr (tickets_auto s)"
    and "tickets (fst (ticketOpen e now s userId name message staff)) = tickets s @
           [\<lparr> t_id = tickets_auto s, t_user_id = userId, t_name = name, t_status = ''open'',
              t_time = now, t_modify_time = now \<rparr>]"
    and "ticket_messages (fst (ticketOpen e now s userId name message staff)) =
           ticket_messages s @
           [\<lparr> tm_id = ticket_messages_auto s, tm_ticket_id = tickets_auto s, tm_staff = staff,
              tm_message = message, tm_time = now \<rparr>]"
    and "pending (fst (ticketOpen e now s userId name message staff)) =
           (if staff then pending s else pending s @ [AutoReply userId (tickets_auto s)])"
  using assms
  by (auto simp: ticketOpen_def Let_def insert_message_def mailWrap_def spawn_def)

lemma ticketOpen_InrD:
  assumes "ticketOpen e now s userId name message staff = (s', Inr ticketId)"
  shows "name \<noteq> [] \<and> message \<noteq> [] \<and> length message \<le> 16384 \<and>
         (staff \<or> (\<exists>st. user_status s userId = Some st \<and> st \<noteq> ''new'')) \<and>
         ticketId = tickets_auto s"
  using assms by (auto simp: ticketOpen_def Let_def split: if_splits)

lemma ticketOpen_InlD:
  assumes "snd (ticketOpen e now s userId name message staff) = Inl err"
  shows "fst (ticketOpen e now s userId name message staff) = s \<and>
         (err = L_Error ''subject_message_empty'' \<and> (name = [] \<or> message = []) \<or>
          err = L_Errorf ''message_too_long'' ''15,000'' \<and> name \<noteq> [] \<and> 16384 < length message \<or>
          err = L_Errorf ''ticket_for_support'' (AdminEmail e) \<and> name \<noteq> [] \<and> message \<noteq> [] \<and>
            length message \<le> 16384 \<and> \<not> staff \<and>
            (user_status s userId = None \<or> user_status s userId = Some ''new''))"
  using assms by (auto simp: ticketOpen_def Let_def split: if_splits)

lemma ticketReply_empty:
  "ticketReply now s userId ticketId [] staff = (s, Some (L_Error ''message_empty''))"
  by (simp add: ticketReply_def)

lemma ticketReply_invalid:
  "message \<noteq> [] \<Longrightarrow> ticketDetails s userId ticketId staff = None \<Longrightarrow>
     ticketReply now s userId ticketId message staff = (s, Some (L_Error ''invalid_ticket''))"
  by (simp add: ticketReply_def)

lemma ticketReply_success:
  "message \<noteq> [] \<Longrightarrow> ticketDetails s userId ticketId staff = Some T \<Longrightarrow>
     ticketReply now s userId ticketId message staff =
       (replied now s userId ticketId message staff (Ticket_Name T), None)"
  by (simp add: ticketReply_def Let_def replied_def insert_message_def mailWrap_def spawn_def
        update_ticket_status_def)

lemma ticketReply_NoneD:
  assumes "snd (ticketReply now s userId ticketId message staff) = None"
  shows "message \<noteq> [] \<and> (\<exists>T. ticketDetails s userId ticketId staff = Some T \<and>
           fst (ticketReply now s userId ticketId message staff) =
             replied now s userId ticketId message staff (Ticket_Name T))"
proof (cases "message = []")
  case True
  with assms show ?thesis by (simp add: ticketReply_empty)
next
  case False
  show ?thesis
  proof (cases "ticketDetails s userId ticketId staff")
    case None
    with False assms show ?thesis by (simp add: ticketReply_invalid)
  next
    case (Some T)
    with False show ?thesis by (simp add: ticketReply_success)
  qed
qed

lemma ticketReply_errors:
  "snd (ticketReply now s userId ticketId message staff) =
     (if message = [] then Some (L_Error ''message_empty'')
      else if ticketDetails s userId ticketId staff = None then Some (L_Error ''invalid_ticket'')
      else None)"
  by (auto simp: ticketReply_empty ticketReply_invalid ticketReply_success)

lemma filter_map_status:
  assumes "\<And>t. P (g t) = P t"
  shows "filter P (map (\<lambda>t. if Q t then g t else t) xs) =
         map (\<lambda>t. if Q t then g t else t) (filter P xs)"
  using assms by (induction xs) auto

lemma ticket_query_replied:
  "ticket_query (replied now s userId ticketId message staff subject) u ticketId st =
     map (\<lambda>t. t\<lparr> t_modify_time := now, t_status := (if staff then ''answered'' else ''open'') \<rparr>)
       (ticket_query s u ticketId st)"
proof -
  let ?g = "\<lambda>t. t\<lparr> t_modify_time := now, t_status := (if staff then ''answered'' else ''open'') \<rparr>"
  have upd: "map (\<lambda>t. if t_id t = ticketId then ?g t else t) (filter P xs) = map ?g (filter P xs)"
    if "\<And>t. P t \<Longrightarrow> t_id t = ticketId" for P and xs :: "ticket_row list"
    using that by (induction xs) auto
  show ?thesis
  proof (cases st)
    case True
    have "filter (\<lambda>t. t_id t = ticketId) (map (\<lambda>t. if t_id t = ticketId then ?g t else t) (tickets s)) =
          map (\<lambda>t. if t_id t = ticketId then ?g t else t) (filter (\<lambda>t. t_id t = ticketId) (tickets s))"
      by (rule filter_map_status) simp
    also have "\<dots> = map ?g (filter (\<lambda>t. t_id t = ticketId) (tickets s))"
      by (rule upd) simp
    finally show ?thesis using True by (simp add: ticket_query_def replied_def)
  next
    case False
    have "filter (\<lambda>t. t_user_id t = u \<and> t_id t = ticketId)
            (map (\<lambda>t. if t_id t = ticketId then ?g t else t) (tickets s)) =
          map (\<lambda>t. if t_id t = ticketId then ?g t else t)
            (filter (\<lambda>t. t_user_id t = u \<and> t_id t = ticketId) (tickets s))"
      by (rule filter_map_status) simp
    also have "\<dots> = map ?g (filter (\<lambda>t. t_user_id t = u \<and> t_id t = ticketId) (tickets s))"
      by (rule upd) simp
    finally show ?thesis using False by (simp add: ticket_query_def replied_def)
  qed
qed

lemma ticketDetails_replied:
  assumes "ticketDetails s u ticketId st = Some T"
  shows "\<exists>T'. ticketDetails (replied now s userId ticketId message staff subject) u ticketId st =
                 Some T' \<and>
              Ticket_Status T' = (if staff then ''answered'' else ''open'') \<and>
              Ticket_ModifyTime T' = now \<and> Ticket_Id T' = Ticket_Id T \<and>
              Ticket_UserId T' = Ticket_UserId T \<and> Ticket_Name T' = Ticket_Name T \<and>
              length (Ticket_Messages T') = Suc (length (Ticket_Messages T))"
proof -
  from ticketDetails_SomeD [OF assms] obtain row where
    q: "ticket_query s u ticketId st = [row]" and T: "T = ticket_of s row"
    and id: "t_id row = ticketId"
    by blast
  have len: "length (message_query (replied now s userId ticketId message staff subject) ticketId) =
      Suc (length (message_query s ticketId))"
    by (simp add: message_query_def replied_def)
  show ?thesis
    using q T id len
    by (simp add: ticketDetails_query ticket_query_replied ticket_of_def scan_ticket_def)
qed

lemma map_update_all:
  assumes "\<And>x. R (g x)"
  shows "\<forall>t \<in> set (map (\<lambda>t. if P t then g t else t) xs). P t \<longrightarrow> R t"
  using assms by (induction xs) simp_all

lemma tickets_replied:
  "tickets (replied now s userId ticketId message staff subject) =
     map (\<lambda>t. if t_id t = ticketId
               then t\<lparr> t_modify_time := now,
                      t_status := (if staff then ''answered'' else ''open'') \<rparr>
               else t) (tickets s)"
  by (simp add: replied_def)

lemma replied_status:
  "\<forall>t \<in> set (tickets (replied now s userId ticketId message staff subject)).
     t_id t = ticketId \<longrightarrow> t_status t = (if staff then ''answered'' else ''open'')"
  unfolding tickets_replied
  by (rule map_update_all) simp

lemma replied_pending:
  "pending (replied now s userId ticketId message staff subject) =
     (if staff then pending s else pending s @ [AutoReply userId ticketId])"
  by (simp add: replied_def)

lemma ticket_query_closed:
  "ticket_query (ticketClose now s userId ticketId) userId ticketId False =
     map (\<lambda>t. t\<lparr> t_modify_time := now, t_status := ''closed'' \<rparr>)
       (ticket_query s userId ticketId False)"
proof -
  let ?g = "\<lambda>t. t\<lparr> t_modify_time := now, t_status := ''closed'' \<rparr>"
  let ?Q = "\<lambda>t. t_id t = ticketId \<and> t_user_id t = userId"
  let ?P = "\<lambda>t. t_user_id t = userId \<and> t_id t = ticketId"
  have "filter ?P (map (\<lambda>t. if ?Q t then ?g t else t) (tickets s)) =
        map (\<lambda>t. if ?Q t then ?g t else t) (filter ?P (tickets s))"
    by (rule filter_map_status) simp
  also have "\<dots> = map ?g (filter ?P (tickets s))"
    by (induction "tickets s") auto
  finally show ?thesis by (simp add: ticket_query_def ticketClose_def)
qed

lemma ticketDetails_closed:
  assumes "ticketDetails s userId ticketId False = Some T"
  shows "\<exists>T'. ticketDetails (ticketClose now s userId ticketId) userId ticketId False = Some T' \<and>
              Ticket_Status T' = ''closed'' \<and> Ticket_ModifyTime T' = now \<and>
              Ticket_Messages T' = Ticket_Messages T"
proof -
  from ticketDetails_SomeD [OF assms] obtain row where
    q: "ticket_query s userId ticketId False = [row]" and T: "T = ticket_of s row"
    and id: "t_id row = ticketId"
    by blast
  have msg: "message_query (ticketClose now s userId ticketId) ticketId = message_query s ticketId"
    by (simp add: message_query_def ticketClose_def)
  show ?thesis
    using q T id msg
    by (simp add: ticketDetails_query ticket_query_closed ticket_of_def scan_ticket_def)
qed

lemma tickets_closed:
  "tickets (ticketClose now s userId ticketId) =
     map (\<lambda>t. if t_id t = ticketId \<and> t_user_id t = userId
               then t\<lparr> t_modify_time := now, t_status := ''closed'' \<rparr> else t) (tickets s)"
  by (simp add: ticketClose_def)

lemma ticketClose_rows:
  "\<forall>t \<in> set (tickets (ticketClose now s userId ticketId)).
     t_id t = ticketId \<and> t_user_id t = userId \<longrightarrow> t_status t = ''closed''"
  unfolding tickets_closed
  by (rule map_update_all) simp

lemma ticketClose_others:
  "filter (\<lambda>t. \<not> (t_id t = ticketId \<and> t_user_id t = userId))
     (tickets (ticketClose now s userId ticketId)) =
   filter (\<lambda>t. \<not> (t_id t = ticketId \<and> t_user_id t = userId)) (tickets s)"
  unfolding tickets_closed
  by (rule filter_not_map_update) simp

text \<open>
  C2.  A ticket that \<open>ticketOpen\<close> creates is the new last row of the table, with status
  \<open>open\<close>.  After a successful \<open>ticketReply\<close> every row with the ticket id has status
  \<open>answered\<close> when the reply is by staff and \<open>open\<close> otherwise, and the caller reads
  the ticket back with that status.  After \<open>ticketClose\<close> by the owner of a ticket the
  owner reads it back with status \<open>closed\<close>, whatever the status was.
\<close>

theorem ticket_status_transitions:
  "(ticketOpen e now s userId name message staff = (s', Inr ticketId) \<longrightarrow>
      ticketId = tickets_auto s \<and>
      tickets s' = tickets s @
        [\<lparr> t_id = ticketId, t_user_id = userId, t_name = name, t_status = ''open'',
           t_time = now, t_modify_time = now \<rparr>]) \<and>
   (ticketReply now s userId ticketId message staff = (s', None) \<longrightarrow>
      (\<exists>T'. ticketDetails s' userId ticketId staff = Some T' \<and>
            Ticket_Status T' = (if staff then ''answered'' else ''open'')) \<and>
      (\<forall>t \<in> set (tickets s'). t_id t = ticketId \<longrightarrow>
            t_status t = (if staff then ''answered'' else ''open''))) \<and>
   (ticketDetails s userId ticketId False = Some T \<longrightarrow>
      (\<exists>T'. ticketDetails (ticketClose now s userId ticketId) userId ticketId False = Some T' \<and>
            Ticket_Status T' = ''closed'') \<and>
      (\<forall>t \<in> set (tickets (ticketClose now s userId ticketId)).
            t_id t = ticketId \<and> t_user_id t = userId \<longrightarrow> t_status t = ''closed''))"
proof (intro conjI impI)
  assume a: "ticketOpen e now s userId name message staff = (s', Inr ticketId)"
  note d = ticketOpen_InrD [OF a]
  from d show "ticketId = tickets_auto s" by blast
  have "tickets (fst (ticketOpen e now s userId name message staff)) = tickets s @
        [\<lparr> t_id = tickets_auto s, t_user_id = userId, t_name = name, t_status = ''open'',
           t_time = now, t_modify_time = now \<rparr>]"
    using d by (intro ticketOpen_success(2)) blast+
  with a d show "tickets s' = tickets s @
        [\<lparr> t_id = ticketId, t_user_id = userId, t_name = name, t_status = ''open'',
           t_time = now, t_modify_time = now \<rparr>]"
    by simp
next
  assume a: "ticketReply now s userId ticketId message staff = (s', None)"
  then have "snd (ticketReply now s userId ticketId message staff) = None" by simp
  from ticketReply_NoneD [OF this] a obtain T0 where
    T0: "ticketDetails s userId ticketId staff = Some T0"
    and s': "s' = replied now s userId ticketId message staff (Ticket_Name T0)"
    by auto
  from ticketDetails_replied [OF T0, of now userId message staff "Ticket_Name T0"]
  show "\<exists>T'. ticketDetails s' userId ticketId staff = Some T' \<and>
            Ticket_Status T' = (if staff then ''answered'' else ''open'')"
    unfolding s' by blast
  show "\<forall>t \<in> set (tickets s'). t_id t = ticketId \<longrightarrow>
            t_status t = (if staff then ''answered'' else ''open'')"
    unfolding s' by (rule replied_status)
next
  assume a: "ticketDetails s userId ticketId False = Some T"
  from ticketDetails_closed [OF a, of now]
  show "\<exists>T'. ticketDetails (ticketClose now s userId ticketId) userId ticketId False = Some T' \<and>
            Ticket_Status T' = ''closed''"
    by blast
  show "\<forall>t \<in> set (tickets (ticketClose now s userId ticketId)).
            t_id t = ticketId \<and> t_user_id t = userId \<longrightarrow> t_status t = ''closed''"
    by (rule ticketClose_rows)
qed

lemma example_desk_key: "tickets_key example_desk"
  by (simp add: tickets_key_def example_desk_def empty_db_def)

lemma example_desk_rows:
  "\<lparr> t_id = 1, t_user_id = 7, t_name = ''Help'', t_status = ''closed'',
     t_time = 10, t_modify_time = 30 \<rparr> \<in> set (tickets example_desk)"
  "\<lparr> t_id = 2, t_user_id = 9, t_name = ''Billing'', t_status = ''open'',
     t_time = 40, t_modify_time = 40 \<rparr> \<in> set (tickets example_desk)"
  by (simp_all add: example_desk_def empty_db_def)

lemma example_desk_users:
  "user_status example_desk 7 = Some ''active''"
  "user_status example_desk 8 = Some ''new''"
  "user_status example_desk 5 = None"
  "tickets_auto example_desk = 3"
  by (simp_all add: example_desk_def empty_db_def)

theorem ticket_status_transitions_witness:
  "ticketOpen example_env 100 example_desk 7 ''Help'' ''hi'' False =
     (fst (ticketOpen example_env 100 example_desk 7 ''Help'' ''hi'' False), Inr 3) \<and>
   tickets (fst (ticketOpen example_env 100 example_desk 7 ''Help'' ''hi'' False)) =
     tickets example_desk @
       [\<lparr> t_id = 3, t_user_id = 7, t_name = ''Help'', t_status = ''open'',
          t_time = 100, t_modify_time = 100 \<rparr>] \<and>
   ticketReply 100 example_desk 0 2 ''looking'' True =
     (fst (ticketReply 100 example_desk 0 2 ''looking'' True), None) \<and>
   list_all (\<lambda>t. t_id t = 2 \<longrightarrow> t_status t = ''answered'')
     (tickets (fst (ticketReply 100 example_desk 0 2 ''looking'' True))) \<and>
   ticketReply 100 example_desk 7 1 ''again'' False =
     (fst (ticketReply 100 example_desk 7 1 ''again'' False), None) \<and>
   list_all (\<lambda>t. t_id t = 1 \<longrightarrow> t_status t = ''open'')
     (tickets (fst (ticketReply 100 example_desk 7 1 ''again'' False))) \<and>
   ticketDetails example_desk 9 2 False =
     Some (ticket_of example_desk \<lparr> t_id = 2, t_user_id = 9, t_name = ''Billing'',
       t_status = ''open'', t_time = 40, t_modify_time = 40 \<rparr>) \<and>
   (\<exists>T'. ticketDetails (ticketClose 100 example_desk 9 2) 9 2 False = Some T' \<and>
         Ticket_Status T' = ''closed'')"
proof -
  let ?r1 = "\<lparr> t_id = 1, t_user_id = 7, t_name = ''Help'', t_status = ''closed'',
     t_time = 10, t_modify_time = 30 \<rparr>"
  let ?r2 = "\<lparr> t_id = 2, t_user_id = 9, t_name = ''Billing'', t_status = ''open'',
     t_time = 40, t_modify_time = 40 \<rparr>"
  let ?o = "ticketOpen example_env 100 example_desk 7 ''Help'' ''hi'' False"
  let ?a = "ticketReply 100 example_desk 0 2 ''looking'' True"
  let ?b = "ticketReply 100 example_desk 7 1 ''again'' False"
  have "snd ?o = Inr (tickets_auto example_desk)"
    by (rule ticketOpen_success(1)) (simp_all add: example_desk_users)
  then have o: "?o = (fst ?o, Inr 3)"
    by (simp add: prod_eq_iff example_desk_users)
  have d2: "ticketDetails example_desk 0 (t_id ?r2) True = Some (ticket_of example_desk ?r2)"
    by (rule ticketDetails_staff [OF example_desk_key example_desk_rows(2)])
  have d1: "ticketDetails example_desk (t_user_id ?r1) (t_id ?r1) False =
      Some (ticket_of example_desk ?r1)"
    by (rule ticketDetails_owner [OF example_desk_key example_desk_rows(1)])
  have d3: "ticketDetails example_desk (t_user_id ?r2) (t_id ?r2) False =
      Some (ticket_of example_desk ?r2)"
    by (rule ticketDetails_owner [OF example_desk_key example_desk_rows(2)])
  have a: "?a = (fst ?a, None)"
    using d2 by (simp add: prod_eq_iff ticketReply_errors)
  have b: "?b = (fst ?b, None)"
    using d1 by (simp add: prod_eq_iff ticketReply_errors)
  have c: "ticketDetails example_desk 9 2 False = Some (ticket_of example_desk ?r2)"
    using d3 by simp
  from ticket_status_transitions
         [of example_env 100 example_desk 7 "''Help''" "''hi''" False "fst ?o" 3] o
  have 1: "tickets (fst ?o) = tickets example_desk @
       [\<lparr> t_id = 3, t_user_id = 7, t_name = ''Help'', t_status = ''open'',
          t_time = 100, t_modify_time = 100 \<rparr>]"
    by blast
  from ticket_status_transitions
         [of _ 100 example_desk 0 _ "''looking''" True "fst ?a" 2] a
  have 2: "list_all (\<lambda>t. t_id t = 2 \<longrightarrow> t_status t = ''answered'') (tickets (fst ?a))"
    by (simp add: list_all_iff)
  from ticket_status_transitions
         [of _ 100 example_desk 7 _ "''again''" False "fst ?b" 1] b
  have 3: "list_all (\<lambda>t. t_id t = 1 \<longrightarrow> t_status t = ''open'') (tickets (fst ?b))"
    by (simp add: list_all_iff)
  from ticket_status_transitions
         [of _ 100 example_desk 9 _ _ _ _ 2 "ticket_of example_desk ?r2"] c
  have 4: "\<exists>T'. ticketDetails (ticketClose 100 example_desk 9 2) 9 2 False = Some T' \<and>
         Ticket_Status T' = ''closed''"
    by blast
  show ?thesis
    using o 1 a 2 b 3 c 4 by blast
qed

subsection \<open>Claims about the checks of the ticket operations\<close>

lemma utf8_characters_le: "utf8_characters m \<le> length m"
  by (simp add: utf8_characters_def)

lemma accented_body_size:
  "utf8_characters accented_body = 16384" "length accented_body = 16385"
  by (simp_all add: utf8_characters_def utf8_continuation_def accented_body_def
        filter_replicate)

text \<open>
  C3 as stated fails for a body of exactly 16384 characters that is longer than 16384
  bytes: the limit of \<open>ticketOpen\<close> is on the bytes, and a caller whose account is
  provisioned gets the error \<open>message_too_long\<close>.
\<close>

theorem ticketOpen_characters_counterexample:
  "utf8_characters accented_body = 16384 \<and>
   user_status example_desk 7 = Some ''active'' \<and>
   ticketOpen example_env 100 example_desk 7 ''Help'' accented_body False =
     (example_desk, Inl (L_Errorf ''message_too_long'' ''15,000''))"
proof -
  have "ticketOpen example_env 100 example_desk 7 ''Help'' accented_body False =
     (example_desk, Inl (L_Errorf ''message_too_long'' ''15,000''))"
    by (rule ticketOpen_too_long) (simp_all add: accented_body_size)
  then show ?thesis
    by (simp add: accented_body_size example_desk_users)
qed

text \<open>
  C3, amended.  The checks of \<open>ticketOpen\<close>, in the order of the source, with the length
  of the body counted in bytes.  An empty subject or an empty body gives the error
  \<open>subject_message_empty\<close>.  With a subject, a body of more than 16384 bytes gives the
  error \<open>message_too_long\<close>, and so does every body of more than 16384 characters.  With
  a subject and a body of at most 16384 bytes, a caller who is not staff and whose account is
  missing or has status \<open>new\<close> gets the error \<open>ticket_for_support\<close>.  Any other
  caller succeeds and gets the new ticket id, in particular with a body of exactly 16384
  bytes.  No failure changes the state.
\<close>

theorem ticketOpen_validation:
  "(name = [] \<or> message = [] \<longrightarrow>
      ticketOpen e now s userId name message staff =
        (s, Inl (L_Error ''subject_message_empty''))) \<and>
   (name \<noteq> [] \<and> 16384 < length message \<longrightarrow>
      ticketOpen e now s userId name message staff =
        (s, Inl (L_Errorf ''message_too_long'' ''15,000''))) \<and>
   (name \<noteq> [] \<and> message \<noteq> [] \<and> length message \<le> 16384 \<and> \<not> staff \<and>
    (user_status s userId = None \<or> user_status s userId = Some ''new'') \<longrightarrow>
      ticketOpen e now s userId name message staff =
        (s, Inl (L_Errorf ''ticket_for_support'' (AdminEmail e)))) \<and>
   (name \<noteq> [] \<and> message \<noteq> [] \<and> length message \<le> 16384 \<and>
    (staff \<or> (\<exists>st. user_status s userId = Some st \<and> st \<noteq> ''new'')) \<longrightarrow>
      snd (ticketOpen e now s userId name message staff) = Inr (tickets_auto s)) \<and>
   (name \<noteq> [] \<and> length message = 16384 \<and>
    (staff \<or> (\<exists>st. user_status s userId = Some st \<and> st \<noteq> ''new'')) \<longrightarrow>
      snd (ticketOpen e now s userId name message staff) = Inr (tickets_auto s)) \<and>
   (name \<noteq> [] \<and> 16384 < utf8_characters message \<longrightarrow>
      ticketOpen e now s userId name message staff =
        (s, Inl (L_Errorf ''message_too_long'' ''15,000'')))"
proof (intro conjI impI)
  assume "name = [] \<or> message = []"
  then show "ticketOpen e now s userId name message staff =
        (s, Inl (L_Error ''subject_message_empty''))"
    by (rule ticketOpen_empty)
next
  assume "name \<noteq> [] \<and> 16384 < length message"
  then show "ticketOpen e now s userId name message staff =
        (s, Inl (L_Errorf ''message_too_long'' ''15,000''))"
    by (simp add: ticketOpen_too_long)
next
  assume "name \<noteq> [] \<and> message \<noteq> [] \<and> length message \<le> 16384 \<and> \<not> staff \<and>
    (user_status s userId = None \<or> user_status s userId = Some ''new'')"
  then show "ticketOpen e now s userId name message staff =
        (s, Inl (L_Errorf ''ticket_for_support'' (AdminEmail e)))"
    by (intro ticketOpen_not_provisioned) blast+
next
  assume "name \<noteq> [] \<and> message \<noteq> [] \<and> length message \<le> 16384 \<and>
    (staff \<or> (\<exists>st. user_status s userId = Some st \<and> st \<noteq> ''new''))"
  then show "snd (ticketOpen e now s userId name message staff) = Inr (tickets_auto s)"
    by (intro ticketOpen_success(1)) blast+
next
  assume a: "name \<noteq> [] \<and> length message = 16384 \<and>
    (staff \<or> (\<exists>st. user_status s userId = Some st \<and> st \<noteq> ''new''))"
  then have "message \<noteq> []" "length message \<le> 16384" by auto
  with a show "snd (ticketOpen e now s userId name message staff) = Inr (tickets_auto s)"
    by (intro ticketOpen_success(1)) blast+
next
  assume a: "name \<noteq> [] \<and> 16384 < utf8_characters message"
  with utf8_characters_le [of message] have "16384 < length message" by simp
  with a show "ticketOpen e now s userId name message staff =
        (s, Inl (L_Errorf ''message_too_long'' ''15,000''))"
    by (simp add: ticketOpen_too_long)
qed

theorem ticketOpen_validation_witness:
  "ticketOpen example_env 100 example_desk 7 ''Help'' [] False =
     (example_desk, Inl (L_Error ''subject_message_empty'')) \<and>
   ticketOpen example_env 100 example_desk 7 [] ''hi'' False =
     (example_desk, Inl (L_Error ''subject_message_empty'')) \<and>
   length (replicate 16385 CHR ''x'') = 16385 \<and>
   utf8_characters (replicate 16385 CHR ''x'') = 16385 \<and>
   ticketOpen example_env 100 example_desk 7 ''Help'' (replicate 16385 CHR ''x'') False =
     (example_desk, Inl (L_Errorf ''message_too_long'' ''15,000'')) \<and>
   user_status example_desk 8 = Some ''new'' \<and>
   ticketOpen example_env 100 example_desk 8 ''Help'' ''hi'' False =
     (example_desk, Inl (L_Errorf ''ticket_for_support'' ''admin@example.com'')) \<and>
   user_status example_desk 5 = None \<and>
   ticketOpen example_env 100 example_desk 5 ''Help'' ''hi'' False =
     (example_desk, Inl (L_Errorf ''ticket_for_support'' ''admin@example.com'')) \<and>
   user_status example_desk 7 = Some ''active'' \<and>
   length (replicate 16384 CHR ''x'') = 16384 \<and>
   snd (ticketOpen example_env 100 example_desk 7 ''Help'' (replicate 16384 CHR ''x'') False) =
     Inr 3 \<and>
   snd (ticketOpen example_env 100 example_desk 8 ''Help'' (replicate 16384 CHR ''x'') True) =
     Inr 3"
proof -
  have admin: "AdminEmail example_env = ''admin@example.com''"
    by (simp add: example_env_def)
  from ticketOpen_validation [of "''Help''" "[]" example_env 100 example_desk 7 False]
  have 1: "ticketOpen example_env 100 example_desk 7 ''Help'' [] False =
     (example_desk, Inl (L_Error ''subject_message_empty''))"
    by simp
  from ticketOpen_validation [of "[]" "''hi''" example_env 100 example_desk 7 False]
  have 2: "ticketOpen example_env 100 example_desk 7 [] ''hi'' False =
     (example_desk, Inl (L_Error ''subject_message_empty''))"
    by simp
  have l5: "length (replicate 16385 CHR ''x'') = 16385" by simp
  have c5: "utf8_characters (replicate 16385 CHR ''x'') = 16385"
    by (simp add: utf8_characters_def utf8_continuation_def filter_replicate)
  from ticketOpen_validation
         [of "''Help''" "replicate 16385 CHR ''x''" example_env 100 example_desk 7 False]
  have 3: "ticketOpen example_env 100 example_desk 7 ''Help'' (replicate 16385 CHR ''x'') False =
     (example_desk, Inl (L_Errorf ''message_too_long'' ''15,000''))"
    by simp
  from ticketOpen_validation [of "''Help''" "''hi''" example_env 100 example_desk 8 False]
  have 4: "ticketOpen example_env 100 example_desk 8 ''Help'' ''hi'' False =
     (example_desk, Inl (L_Errorf ''ticket_for_support'' ''admin@example.com''))"
    by (simp add: example_desk_users admin)
  from ticketOpen_validation [of "''Help''" "''hi''" example_env 100 example_desk 5 False]
  have 5: "ticketOpen example_env 100 example_desk 5 ''Help'' ''hi'' False =
     (example_desk, Inl (L_Errorf ''ticket_for_support'' ''admin@example.com''))"
    by (simp add: example_desk_users admin)
  have l4: "length (replicate 16384 CHR ''x'') = 16384" by simp
  from ticketOpen_validation
         [of "''Help''" "replicate 16384 CHR ''x''" example_env 100 example_desk 7 False]
  have 6: "snd (ticketOpen example_env 100 example_desk 7 ''Help''
                  (replicate 16384 CHR ''x'') False) = Inr 3"
    by (simp add: example_desk_users)
  from ticketOpen_validation
         [of "''Help''" "replicate 16384 CHR ''x''" example_env 100 example_desk 8 True]
  have 7: "snd (ticketOpen example_env 100 example_desk 8 ''Help''
                  (replicate 16384 CHR ''x'') True) = Inr 3"
    by (simp add: example_desk_users)
  show ?thesis
    using 1 2 l5 c5 3 4 5 l4 6 7 example_desk_users(1,2,3) by blast
qed

text \<open>
  C10.  When \<open>ticketOpen\<close> returns the error \<open>message_too_long\<close>, the argument of the
  error is the text \<open>15,000\<close> and the body is longer than 16384 bytes; with a subject,
  every body longer than 16384 bytes gets this error and no body of at most 16384 bytes does.
  The result of \<open>ticketReply\<close> depends on the message only through its being empty: a
  message that is not empty, of any length, is accepted on a ticket that the caller can read.
\<close>

theorem message_length_limit:
  "(snd (ticketOpen e now s userId name message staff) = Inl (L_Errorf ''message_too_long'' p) \<longrightarrow>
      p = ''15,000'' \<and> 16384 < length message) \<and>
   (name \<noteq> [] \<and> 16384 < length message \<longrightarrow>
      snd (ticketOpen e now s userId name message staff) =
        Inl (L_Errorf ''message_too_long'' ''15,000'')) \<and>
   (length message \<le> 16384 \<longrightarrow>
      snd (ticketOpen e now s userId name message staff) \<noteq>
        Inl (L_Errorf ''message_too_long'' p)) \<and>
   snd (ticketReply now s userId ticketId message staff) =
     (if message = [] then Some (L_Error ''message_empty'')
      else if ticketDetails s userId ticketId staff = None then Some (L_Error ''invalid_ticket'')
      else None) \<and>
   (message \<noteq> [] \<and> ticketDetails s userId ticketId staff = Some T \<longrightarrow>
      snd (ticketReply now s userId ticketId message staff) = None)"
proof (intro conjI impI)
  assume a: "snd (ticketOpen e now s userId name message staff) =
    Inl (L_Errorf ''message_too_long'' p)"
  from ticketOpen_InlD [OF a] show "p = ''15,000''" by auto
  from ticketOpen_InlD [OF a] show "16384 < length message" by auto
next
  assume "name \<noteq> [] \<and> 16384 < length message"
  then show "snd (ticketOpen e now s userId name message staff) =
        Inl (L_Errorf ''message_too_long'' ''15,000'')"
    by (simp add: ticketOpen_too_long)
next
  assume le: "length message \<le> 16384"
  show "snd (ticketOpen e now s userId name message staff) \<noteq>
        Inl (L_Errorf ''message_too_long'' p)"
  proof
    assume a: "snd (ticketOpen e now s userId name message staff) =
      Inl (L_Errorf ''message_too_long'' p)"
    from ticketOpen_InlD [OF a] have "16384 < length message" by auto
    with le show False by simp
  qed
next
  show "snd (ticketReply now s userId ticketId message staff) =
     (if message = [] then Some (L_Error ''message_empty'')
      else if ticketDetails s userId ticketId staff = None then Some (L_Error ''invalid_ticket'')
      else None)"
    by (rule ticketReply_errors)
next
  assume "message \<noteq> [] \<and> ticketDetails s userId ticketId staff = Some T"
  then show "snd (ticketReply now s userId ticketId message staff) = None"
    by (simp add: ticketReply_errors)
qed

theorem message_length_limit_witness:
  "length (replicate 100000 CHR ''x'') = 100000 \<and>
   snd (ticketOpen example_env 100 example_desk 7 ''Help'' (replicate 100000 CHR ''x'') False) =
     Inl (L_Errorf ''message_too_long'' ''15,000'') \<and>
   ticketDetails example_desk 7 1 False =
     Some (ticket_of example_desk \<lparr> t_id = 1, t_user_id = 7, t_name = ''Help'',
       t_status = ''closed'', t_time = 10, t_modify_time = 30 \<rparr>) \<and>
   snd (ticketReply 100 example_desk 7 1 (replicate 100000 CHR ''x'') False) = None"
proof -
  let ?r1 = "\<lparr> t_id = 1, t_user_id = 7, t_name = ''Help'', t_status = ''closed'',
     t_time = 10, t_modify_time = 30 \<rparr>"
  let ?m = "replicate 100000 CHR ''x''"
  have l: "length ?m = 100000" by simp
  have "ticketDetails example_desk (t_user_id ?r1) (t_id ?r1) False =
      Some (ticket_of example_desk ?r1)"
    by (rule ticketDetails_owner [OF example_desk_key example_desk_rows(1)])
  then have d: "ticketDetails example_desk 7 1 False = Some (ticket_of example_desk ?r1)"
    by simp
  from message_length_limit [of example_env 100 example_desk 7 "''Help''" ?m False "''15,000''" 1
         "ticket_of example_desk ?r1"]
  have 1: "snd (ticketOpen example_env 100 example_desk 7 ''Help'' ?m False) =
     Inl (L_Errorf ''message_too_long'' ''15,000'')"
    by simp
  from message_length_limit [of example_env 100 example_desk 7 "''Help''" ?m False "''15,000''" 1
         "ticket_of example_desk ?r1"] d
  have 2: "snd (ticketReply 100 example_desk 7 1 ?m False) = None"
    by simp
  show ?thesis
    using l 1 d 2 by blast
qed

subsection \<open>Claims about replies on closed tickets and the delayed reply\<close>

text \<open>
  C9.  A reply on a closed ticket is accepted.  When the caller can read the ticket, its
  status is \<open>closed\<close> and the message is not empty, \<open>ticketReply\<close> returns no error and
  the caller reads the ticket back with one more message and with status \<open>answered\<close> when
  the reply is by staff, \<open>open\<close> otherwise.  The only errors of \<open>ticketReply\<close> are
  \<open>message_empty\<close> and \<open>invalid_ticket\<close>.
\<close>

theorem reply_on_closed_ticket:
  "(ticketDetails s userId ticketId staff = Some T \<and> Ticket_Status T = ''closed'' \<and>
    message \<noteq> [] \<longrightarrow>
      snd (ticketReply now s userId ticketId message staff) = None \<and>
      (\<exists>T'. ticketDetails (fst (ticketReply now s userId ticketId message staff))
              userId ticketId staff = Some T' \<and>
            Ticket_Status T' = (if staff then ''answered'' else ''open'') \<and>
            length (Ticket_Messages T') = Suc (length (Ticket_Messages T)))) \<and>
   snd (ticketReply now s userId ticketId message staff) \<in>
     {None, Some (L_Error ''message_empty''), Some (L_Error ''invalid_ticket'')}"
proof (intro conjI impI)
  assume a: "ticketDetails s userId ticketId staff = Some T \<and> Ticket_Status T = ''closed'' \<and>
    message \<noteq> []"
  then have T: "ticketDetails s userId ticketId staff = Some T" and m: "message \<noteq> []"
    by blast+
  have r: "ticketReply now s userId ticketId message staff =
      (replied now s userId ticketId message staff (Ticket_Name T), None)"
    using m T by (rule ticketReply_success)
  show "snd (ticketReply now s userId ticketId message staff) = None"
    by (simp only: r snd_conv)
  from ticketDetails_replied [OF T, of now userId message staff "Ticket_Name T"]
  show "\<exists>T'. ticketDetails (fst (ticketReply now s userId ticketId message staff))
              userId ticketId staff = Some T' \<and>
            Ticket_Status T' = (if staff then ''answered'' else ''open'') \<and>
            length (Ticket_Messages T') = Suc (length (Ticket_Messages T))"
    unfolding r fst_conv by blast
next
  show "snd (ticketReply now s userId ticketId message staff) \<in>
     {None, Some (L_Error ''message_empty''), Some (L_Error ''invalid_ticket'')}"
    unfolding ticketReply_errors by simp
qed

theorem reply_on_closed_ticket_witness:
  "ticketDetails example_desk 7 1 False =
     Some (ticket_of example_desk \<lparr> t_id = 1, t_user_id = 7, t_name = ''Help'',
       t_status = ''closed'', t_time = 10, t_modify_time = 30 \<rparr>) \<and>
   Ticket_Status (ticket_of example_desk \<lparr> t_id = 1, t_user_id = 7, t_name = ''Help'',
       t_status = ''closed'', t_time = 10, t_modify_time = 30 \<rparr>) = ''closed'' \<and>
   snd (ticketReply 100 example_desk 7 1 ''still broken'' False) = None \<and>
   (\<exists>T'. ticketDetails (fst (ticketReply 100 example_desk 7 1 ''still broken'' False)) 7 1 False =
           Some T' \<and> Ticket_Status T' = ''open'') \<and>
   ticketDetails example_desk 0 1 True =
     Some (ticket_of example_desk \<lparr> t_id = 1, t_user_id = 7, t_name = ''Help'',
       t_status = ''closed'', t_time = 10, t_modify_time = 30 \<rparr>) \<and>
   snd (ticketReply 100 example_desk 0 1 ''fixed'' True) = None \<and>
   (\<exists>T'. ticketDetails (fst (ticketReply 100 example_desk 0 1 ''fixed'' True)) 0 1 True =
           Some T' \<and> Ticket_Status T' = ''answered'')"
proof -
  let ?r1 = "\<lparr> t_id = 1, t_user_id = 7, t_name = ''Help'', t_status = ''closed'',
     t_time = 10, t_modify_time = 30 \<rparr>"
  have "ticketDetails example_desk (t_user_id ?r1) (t_id ?r1) False =
      Some (ticket_of example_desk ?r1)"
    by (rule ticketDetails_owner [OF example_desk_key example_desk_rows(1)])
  then have d: "ticketDetails example_desk 7 1 False = Some (ticket_of example_desk ?r1)"
    by simp
  have "ticketDetails example_desk 0 (t_id ?r1) True = Some (ticket_of example_desk ?r1)"
    by (rule ticketDetails_staff [OF example_desk_key example_desk_rows(1)])
  then have d': "ticketDetails example_desk 0 1 True = Some (ticket_of example_desk ?r1)"
    by simp
  have c: "Ticket_Status (ticket_of example_desk ?r1) = ''closed''"
    by (simp add: ticket_of_fields)
  have m: "''still broken'' \<noteq> []" "''fixed'' \<noteq> []" by simp_all
  from reply_on_closed_ticket
         [of example_desk 7 1 False "ticket_of example_desk ?r1" "''still broken''" 100] d c m(1)
  have 1: "snd (ticketReply 100 example_desk 7 1 ''still broken'' False) = None"
    and 2: "\<exists>T'. ticketDetails (fst (ticketReply 100 example_desk 7 1 ''still broken'' False))
                   7 1 False = Some T' \<and> Ticket_Status T' = ''open''"
    by auto
  from reply_on_closed_ticket
         [of example_desk 0 1 True "ticket_of example_desk ?r1" "''fixed''" 100] d' c m(2)
  have 3: "snd (ticketReply 100 example_desk 0 1 ''fixed'' True) = None"
    and 4: "\<exists>T'. ticketDetails (fst (ticketReply 100 example_desk 0 1 ''fixed'' True))
                   0 1 True = Some T' \<and> Ticket_Status T' = ''answered''"
    by auto
  show ?thesis
    using d c 1 2 d' 3 4 by blast
qed

lemma auto_reply_message_not_empty: "auto_reply_message \<noteq> []"
  by (simp add: auto_reply_message_def)

lemma ticketReply_pending:
  "pending (fst (ticketReply now s userId ticketId message staff)) =
     (if snd (ticketReply now s userId ticketId message staff) = None \<and> \<not> staff
      then pending s @ [AutoReply userId ticketId] else pending s)"
proof (cases "message = []")
  case True
  then show ?thesis by (simp add: ticketReply_empty)
next
  case False
  show ?thesis
  proof (cases "ticketDetails s userId ticketId staff")
    case None
    with False show ?thesis by (simp add: ticketReply_invalid)
  next
    case (Some T)
    with False show ?thesis by (simp add: ticketReply_success replied_pending)
  qed
qed

lemma run_task_pending: "pending (run_task now s t) = pending s"
  by (cases t) (simp add: run_task_def ticketReply_pending)

lemma fire_pending:
  "i < length (pending s) \<Longrightarrow>
     pending (fire now s i) = take i (pending s) @ drop (Suc i) (pending s)"
  by (simp add: fire_def run_task_pending)

lemma run_task_answered:
  assumes "tickets_key s" "row \<in> set (tickets s)"
  shows "\<exists>T. ticketDetails (run_task now s (AutoReply userId (t_id row))) userId (t_id row) True =
               Some T \<and> Ticket_Status T = ''answered''"
proof -
  have d: "ticketDetails s userId (t_id row) True = Some (ticket_of s row)"
    using assms by (rule ticketDetails_staff)
  have r: "run_task now s (AutoReply userId (t_id row)) =
      replied now s userId (t_id row) auto_reply_message True (Ticket_Name (ticket_of s row))"
    by (simp add: run_task_def ticketReply_success [OF auto_reply_message_not_empty d])
  from ticketDetails_replied [OF d, of now userId auto_reply_message True
      "Ticket_Name (ticket_of s row)"]
  show ?thesis unfolding r by auto
qed

text \<open>
  C6 as stated fails: the delayed reply is a staff reply, and a staff reply starts no
  delayed reply.  After user 7 opened ticket 3 one delayed reply is waiting; once it has
  run, ticket 3 is answered and none is waiting.
\<close>

theorem auto_reply_rearm_counterexample:
  "pending example_opened = [AutoReply 7 3] \<and>
   map t_id (tickets (fire 120 example_opened 0)) = [1, 2, 3] \<and>
   map t_status (tickets (fire 120 example_opened 0)) = [''closed'', ''open'', ''answered''] \<and>
   pending (fire 120 example_opened 0) = []"
proof -
  have o: "example_opened = example_desk
      \<lparr> tickets := tickets example_desk @
           [\<lparr> t_id = 3, t_user_id = 7, t_name = ''Help'', t_status = ''open'',
              t_time = 100, t_modify_time = 100 \<rparr>],
        tickets_auto := 4,
        ticket_messages := ticket_messages example_desk @
           [\<lparr> tm_id = 4, tm_ticket_id = 3, tm_staff = False, tm_message = ''hi'',
              tm_time = 100 \<rparr>],
        ticket_messages_auto := 5,
        outbox := [(- 1, ''ticketOpen'',
           \<lparr> Email_Id = 3, Email_Subject = ''Help'', Email_Message = ''hi'' \<rparr>)],
        pending := [AutoReply 7 3] \<rparr>"
    by (simp add: example_opened_def ticketOpen_def Let_def insert_message_def mailWrap_def
          spawn_def example_desk_def empty_db_def)
  have p: "pending example_opened = [AutoReply 7 3]"
    unfolding o by simp
  have q: "ticket_query (example_opened\<lparr> pending := [] \<rparr>) 7 3 True =
      [\<lparr> t_id = 3, t_user_id = 7, t_name = ''Help'', t_status = ''open'',
         t_time = 100, t_modify_time = 100 \<rparr>]"
    unfolding o by (simp add: ticket_query_def example_desk_def empty_db_def)
  have d: "ticketDetails (example_opened\<lparr> pending := [] \<rparr>) 7 3 True \<noteq> None"
    by (simp add: ticketDetails_query q)
  then obtain T where T: "ticketDetails (example_opened\<lparr> pending := [] \<rparr>) 7 3 True = Some T"
    by blast
  have f: "fire 120 example_opened 0 =
      replied 120 (example_opened\<lparr> pending := [] \<rparr>) 7 3 auto_reply_message True (Ticket_Name T)"
    by (simp add: fire_def p run_task_def
          ticketReply_success [OF auto_reply_message_not_empty T])
  have t: "tickets (example_opened\<lparr> pending := [] \<rparr>) = tickets example_desk @
           [\<lparr> t_id = 3, t_user_id = 7, t_name = ''Help'', t_status = ''open'',
              t_time = 100, t_modify_time = 100 \<rparr>]"
    unfolding o by simp
  have 1: "map t_id (tickets (fire 120 example_opened 0)) = [1, 2, 3]"
    "map t_status (tickets (fire 120 example_opened 0)) = [''closed'', ''open'', ''answered'']"
    unfolding f tickets_replied t by (simp_all add: example_desk_def empty_db_def)
  have 2: "pending (fire 120 example_opened 0) = []"
    unfolding f by (simp add: replied_pending)
  show ?thesis using p 1 2 by blast
qed

text \<open>
  C6, amended.  A delayed reply never starts another one: running it leaves the list of
  waiting delayed replies as it is, so firing one makes the list shorter by that one.  It
  marks the ticket \<open>answered\<close> when the ticket id, a key of the table, names an existing
  ticket, whatever the status of the ticket, closed included.  One delayed reply is started
  by each ticket opened and by each successful reply of a caller who is not staff, and none
  by staff.
\<close>

theorem auto_reply_once:
  "pending (run_task now s t) = pending s \<and>
   (i < length (pending s) \<longrightarrow>
      pending (fire now s i) = take i (pending s) @ drop (Suc i) (pending s)) \<and>
   (tickets_key s \<and> row \<in> set (tickets s) \<longrightarrow>
      (\<exists>T. ticketDetails (run_task now s (AutoReply userId (t_id row))) userId (t_id row) True =
              Some T \<and> Ticket_Status T = ''answered'')) \<and>
   (ticketOpen e now s userId name message staff = (s', Inr ticketId) \<longrightarrow>
      pending s' = (if staff then pending s else pending s @ [AutoReply userId ticketId])) \<and>
   (ticketReply now s userId ticketId message staff = (s', None) \<longrightarrow>
      pending s' = (if staff then pending s else pending s @ [AutoReply userId ticketId]))"
proof (intro conjI impI)
  show "pending (run_task now s t) = pending s"
    by (rule run_task_pending)
  show "pending (fire now s i) = take i (pending s) @ drop (Suc i) (pending s)"
    if "i < length (pending s)"
    using that by (rule fire_pending)
  show "\<exists>T. ticketDetails (run_task now s (AutoReply userId (t_id row))) userId (t_id row) True =
              Some T \<and> Ticket_Status T = ''answered''"
    if "tickets_key s \<and> row \<in> set (tickets s)"
    using that by (simp add: run_task_answered)
next
  assume a: "ticketOpen e now s userId name message staff = (s', Inr ticketId)"
  note d = ticketOpen_InrD [OF a]
  have "pending (fst (ticketOpen e now s userId name message staff)) =
      (if staff then pending s else pending s @ [AutoReply userId (tickets_auto s)])"
    using d by (intro ticketOpen_success(4)) blast+
  with a d show "pending s' =
      (if staff then pending s else pending s @ [AutoReply userId ticketId])"
    by simp
next
  assume a: "ticketReply now s userId ticketId message staff = (s', None)"
  from ticketReply_pending [of now s userId ticketId message staff] a
  show "pending s' = (if staff then pending s else pending s @ [AutoReply userId ticketId])"
    by simp
qed

theorem auto_reply_once_witness:
  "ticketOpen example_env 100 example_desk 7 ''Help'' ''hi'' False = (example_opened, Inr 3) \<and>
   pending example_opened = [AutoReply 7 3] \<and>
   0 < length (pending example_opened) \<and>
   pending (fire 120 example_opened 0) = [] \<and>
   tickets_key example_desk \<and>
   \<lparr> t_id = 1, t_user_id = 7, t_name = ''Help'', t_status = ''closed'',
     t_time = 10, t_modify_time = 30 \<rparr> \<in> set (tickets example_desk) \<and>
   (\<exists>T. ticketDetails (run_task 120 example_desk (AutoReply 7 1)) 7 1 True = Some T \<and>
        Ticket_Status T = ''answered'') \<and>
   pending (run_task 120 example_desk (AutoReply 7 1)) = [] \<and>
   ticketReply 100 example_desk 7 1 ''again'' False =
     (fst (ticketReply 100 example_desk 7 1 ''again'' False), None) \<and>
   pending (fst (ticketReply 100 example_desk 7 1 ''again'' False)) = [AutoReply 7 1]"
proof -
  let ?r1 = "\<lparr> t_id = 1, t_user_id = 7, t_name = ''Help'', t_status = ''closed'',
     t_time = 10, t_modify_time = 30 \<rparr>"
  let ?b = "ticketReply 100 example_desk 7 1 ''again'' False"
  have none: "pending example_desk = []"
    by (simp add: example_desk_def empty_db_def)
  have "snd (ticketOpen example_env 100 example_desk 7 ''Help'' ''hi'' False) =
      Inr (tickets_auto example_desk)"
    by (rule ticketOpen_success(1)) (simp_all add: example_desk_users)
  then have o: "ticketOpen example_env 100 example_desk 7 ''Help'' ''hi'' False =
      (example_opened, Inr 3)"
    by (simp add: prod_eq_iff example_desk_users example_opened_def)
  from auto_reply_once [where s = example_desk and e = example_env and now = 100 and userId = 7
      and name = "''Help''" and message = "''hi''" and staff = False and s' = example_opened
      and ticketId = 3 and t = "AutoReply 7 1" and i = 0 and row = ?r1] o
  have p: "pending example_opened = [AutoReply 7 3]"
    by (simp add: none)
  then have l: "0 < length (pending example_opened)" by simp
  from auto_reply_once [where s = example_opened and e = example_env and now = 120 and userId = 7
      and name = "''Help''" and message = "''hi''" and staff = False and s' = example_opened
      and ticketId = 3 and t = "AutoReply 7 3" and i = 0 and row = ?r1] l
  have f: "pending (fire 120 example_opened 0) = []"
    by (simp add: p)
  from auto_reply_once [where s = example_desk and e = example_env and now = 120 and userId = 7
      and name = "''Help''" and message = "''hi''" and staff = False and s' = example_opened
      and ticketId = 3 and t = "AutoReply 7 1" and i = 0 and row = ?r1]
    example_desk_key example_desk_rows(1)
  have a: "\<exists>T. ticketDetails (run_task 120 example_desk (AutoReply 7 1)) 7 1 True = Some T \<and>
        Ticket_Status T = ''answered''"
    and n: "pending (run_task 120 example_desk (AutoReply 7 1)) = []"
    by (simp_all add: none)
  have "ticketDetails example_desk (t_user_id ?r1) (t_id ?r1) False =
      Some (ticket_of example_desk ?r1)"
    by (rule ticketDetails_owner [OF example_desk_key example_desk_rows(1)])
  then have b: "?b = (fst ?b, None)"
    by (simp add: prod_eq_iff ticketReply_errors)
  from auto_reply_once [where s = example_desk and e = example_env and now = 100 and userId = 7
      and name = "''Help''" and message = "''again''" and staff = False and s' = "fst ?b"
      and ticketId = 1 and t = "AutoReply 7 1" and i = 0 and row = ?r1] b
  have r: "pending (fst ?b) = [AutoReply 7 1]"
    by (simp add: none)
  show ?thesis
    using o p l f example_desk_key example_desk_rows(1) a n b r by blast
qed

end
